theory Spec2Isabelle
  imports Main "HOL-Library.Sublist"
begin

section \<open>Distributed checkpoint save: torch/distributed/checkpoint/state\_dict\_saver.py\<close>

text \<open>
  The module has five functions: \<^verbatim>\<open>save_state_dict\<close>, \<^verbatim>\<open>save\<close>, \<^verbatim>\<open>async_save\<close>,
  \<^verbatim>\<open>_stateful_to_state_dict\<close> and \<^verbatim>\<open>_save_state_dict\<close>. A Python name with a leading
  underscore is written here with the prefix \<open>priv_\<close>, since an Isabelle name starts
  with a letter.

  Planner, storage writer, stager and Stateful objects are external collaborators: their
  methods are the fields of the record \<open>hooks\<close>, each a function on the explicit state
  of the object it belongs to. An exception raised inside such a method is outside this
  development; the raises of the module itself (its assertions, the failure of the
  storage set-up) are values of type \<open>error\<close>.
\<close>

subsection \<open>Data model\<close>

datatype error =
    AssertionError string
  | RuntimeError string
  | AttributeError string
  | CollectiveError string

datatype device = CPU | CUDA

record process_group =
  device_types :: "device list"

text \<open>
  A value of a state dict is either a plain value or a reference to a Stateful object
  (\<^verbatim>\<open>isinstance(elem, Stateful)\<close>). A dict is insertion ordered with unique keys.
\<close>

datatype 'v elem = Plain 'v | Stateful nat

type_synonym 'v state_dict = "(string \<times> 'v elem) list"

fun setitem :: "(string \<times> 'a) list \<Rightarrow> string \<Rightarrow> 'a \<Rightarrow> (string \<times> 'a) list" where
  "setitem [] k v = [(k, v)]"
| "setitem ((k', v') # d) k v = (if k' = k then (k', v) # d else (k', v') # setitem d k v)"

datatype executor = ThreadPoolExecutor nat | UserExecutor

text \<open>What a process does outside the planner and writer protocol, in program order.\<close>

datatype 'v action =
    Warn string
  | Snapshot nat
  | Reset
  | Stage "'v state_dict"
  | Offload "'v state_dict"
  | Submit executor
  | AddDoneCallback
  | Synchronize

text \<open>
  One process: its dict objects, its Stateful objects and its storage writer objects, by
  address, and its log. Addresses below \<open>next_free\<close> are the dict objects that exist.
\<close>

record ('v, 'o, 'ws) proc =
  cells :: "nat \<Rightarrow> 'v state_dict"
  next_free :: nat
  objs :: "nat \<Rightarrow> 'o"
  writers :: "nat \<Rightarrow> 'ws"
  log :: "'v action list"

text \<open>The hooks of planner and writer that \<^verbatim>\<open>_save_state_dict\<close> invokes, with their arguments.\<close>

datatype ('v, 'l, 'm, 'r) event =
    E_set_up_planner "'v state_dict" bool
  | E_set_up_storage_writer bool
  | E_create_local_plan
  | E_prepare_local_plan 'l
  | E_create_global_plan "'l list"
  | E_prepare_global_plan "'l list"
  | E_finish_plan 'l
  | E_write_data 'l
  | E_wait
  | E_value
  | E_finish 'm "'r list"

datatype hook =
    H_set_up_planner
  | H_set_up_storage_writer
  | H_create_local_plan
  | H_prepare_local_plan
  | H_create_global_plan
  | H_prepare_global_plan
  | H_finish_plan
  | H_write_data
  | H_wait
  | H_value
  | H_finish

fun hook_of :: "('v, 'l, 'm, 'r) event \<Rightarrow> hook" where
  "hook_of (E_set_up_planner sd c) = H_set_up_planner"
| "hook_of (E_set_up_storage_writer c) = H_set_up_storage_writer"
| "hook_of E_create_local_plan = H_create_local_plan"
| "hook_of (E_prepare_local_plan l) = H_prepare_local_plan"
| "hook_of (E_create_global_plan ls) = H_create_global_plan"
| "hook_of (E_prepare_global_plan ls) = H_prepare_global_plan"
| "hook_of (E_finish_plan l) = H_finish_plan"
| "hook_of (E_write_data l) = H_write_data"
| "hook_of E_wait = H_wait"
| "hook_of E_value = H_value"
| "hook_of (E_finish m rs) = H_finish"

text \<open>
  The external methods. \<open>st_\<close>: Stateful; \<open>pl_\<close>: SavePlanner; \<open>sw_\<close>: StorageWriter and
  AsyncStager. \<open>'ps\<close> and \<open>'ws\<close> are the states of a planner and of a writer object,
  \<open>'l\<close> a local plan, \<open>'m\<close> the metadata, \<open>'r\<close> the write results of one rank.
  \<open>pl_create_global_plan\<close> returns the pair Python unpacks; its second component may
  be \<^verbatim>\<open>None\<close>. \<open>sw_write_data\<close> gives the value the returned future holds once waited on.
  \<open>sw_stage\<close> returns a dict object: \<^verbatim>\<open>None\<close> stands for the very dict it was given,
  \<open>Some d\<close> for a new dict with the items \<open>d\<close>. \<open>infer_writer\<close> is the writer that can
  be inferred from a checkpoint id, if any.
\<close>

record ('v, 'o, 'ps, 'ws, 'l, 'm, 'r) hooks =
  st_state_dict :: "'o \<Rightarrow> 'v \<times> 'o"
  DefaultSavePlanner :: "'ps"
  pl_set_up_planner :: "'v state_dict \<Rightarrow> bool \<Rightarrow> 'ps \<Rightarrow> 'ps"
  pl_create_local_plan :: "'ps \<Rightarrow> 'l \<times> 'ps"
  pl_create_global_plan :: "'l list \<Rightarrow> 'ps \<Rightarrow> ('l list \<times> 'm option) \<times> 'ps"
  pl_finish_plan :: "'l \<Rightarrow> 'ps \<Rightarrow> 'l \<times> 'ps"
  sw_reset :: "'ws \<Rightarrow> 'ws"
  sw_set_up_storage_writer :: "bool \<Rightarrow> 'ws \<Rightarrow> 'ws"
  sw_prepare_local_plan :: "'l \<Rightarrow> 'ws \<Rightarrow> 'l \<times> 'ws"
  sw_prepare_global_plan :: "'l list \<Rightarrow> 'ws \<Rightarrow> 'l list \<times> 'ws"
  sw_write_data :: "'l \<Rightarrow> 'ps \<Rightarrow> 'ws \<Rightarrow> 'r \<times> 'ps \<times> 'ws"
  sw_finish :: "'m \<Rightarrow> 'r list \<Rightarrow> 'ws \<Rightarrow> 'ws"
  is_AsyncStager :: "'ws \<Rightarrow> bool"
  sw_stage :: "'v state_dict \<Rightarrow> 'ws \<Rightarrow> 'v state_dict option \<times> 'ws"
  sw_synchronize_after_execute :: "'ws \<Rightarrow> bool"
  sw_synchronize :: "'ws \<Rightarrow> 'ws"
  offload_state_dict_to_cpu :: "'v state_dict \<Rightarrow> 'v state_dict"
  infer_writer :: "string \<Rightarrow> 'ws option"

subsection \<open>\<^verbatim>\<open>_stateful_to_state_dict\<close> (lines 286--293)\<close>

text \<open>
  The loop over \<^verbatim>\<open>state_dict.items()\<close>: \<open>r\<close> is the address of \<^verbatim>\<open>stateful_state_dict\<close>.
  Calling \<^verbatim>\<open>elem.state_dict()\<close> may change the object it is called on.
\<close>

fun items_loop ::
  "('v, 'o, 'ps, 'ws, 'l, 'm, 'r) hooks \<Rightarrow> nat \<Rightarrow> 'v state_dict \<Rightarrow> ('v, 'o, 'ws) proc \<Rightarrow> ('v, 'o, 'ws) proc"
where
  "items_loop H r [] p = p"
| "items_loop H r ((key, Plain v) # rest) p =
     items_loop H r rest (p\<lparr>cells := (cells p)(r := setitem (cells p r) key (Plain v))\<rparr>)"
| "items_loop H r ((key, Stateful a) # rest) p =
     (let (v, ob) = st_state_dict H (objs p a) in
      items_loop H r rest
        (p\<lparr>cells := (cells p)(r := setitem (cells p r) key (Plain v)),
           objs := (objs p)(a := ob),
           log := log p @ [Snapshot a]\<rparr>))"

definition priv_stateful_to_state_dict ::
  "('v, 'o, 'ps, 'ws, 'l, 'm, 'r) hooks \<Rightarrow> nat \<Rightarrow> ('v, 'o, 'ws) proc \<Rightarrow> nat \<times> ('v, 'o, 'ws) proc"
where
  "priv_stateful_to_state_dict H state_dict p =
     (let r = next_free p;
          p0 = p\<lparr>cells := (cells p)(r := []), next_free := Suc r\<rparr>
      in (r, items_loop H r (cells p state_dict) p0))"

text \<open>What the loop stores, as a function of the items and of the objects at its start.\<close>

fun resolved :: "('v, 'o, 'ps, 'ws, 'l, 'm, 'r) hooks \<Rightarrow> 'v state_dict \<Rightarrow> (nat \<Rightarrow> 'o) \<Rightarrow> 'v state_dict" where
  "resolved H [] os = []"
| "resolved H ((key, Plain v) # rest) os = (key, Plain v) # resolved H rest os"
| "resolved H ((key, Stateful a) # rest) os =
     (key, Plain (fst (st_state_dict H (os a)))) # resolved H rest (os(a := snd (st_state_dict H (os a))))"

fun has_stateful :: "'v state_dict \<Rightarrow> bool" where
  "has_stateful [] = False"
| "has_stateful ((key, Plain v) # rest) = has_stateful rest"
| "has_stateful ((key, Stateful a) # rest) = True"

subsection \<open>The closures of \<^verbatim>\<open>_save_state_dict\<close> (lines 296--344)\<close>

text \<open>
  The locals of one invocation on one rank. \<open>planner\<close> is the variable after lines
  307--308, where \<^verbatim>\<open>None\<close> has been replaced by \<^verbatim>\<open>DefaultSavePlanner()\<close>; no closure
  assigns it, so the assertions \<^verbatim>\<open>planner is not None\<close> of lines 309, 314, 324 and 332
  hold and have no branch here. \<open>trace\<close> records the hooks this invocation has called.
\<close>

record ('v, 'ps, 'ws, 'l, 'm, 'r) frame =
  state_dict :: "'v state_dict"
  storage_writer :: "'ws"
  planner :: "'ps"
  global_metatadata :: "'m option"
  trace :: "('v, 'l, 'm, 'r) event list"

record ('v, 'ps, 'ws) call =
  call_state_dict :: "'v state_dict"
  call_storage_writer :: "'ws"
  call_planner :: "'ps option"

definition emit ::
  "('v, 'l, 'm, 'r) event \<Rightarrow> ('v, 'ps, 'ws, 'l, 'm, 'r) frame \<Rightarrow> ('v, 'ps, 'ws, 'l, 'm, 'r) frame"
where
  "emit e f = f\<lparr>trace := trace f @ [e]\<rparr>"

definition enter ::
  "('v, 'o, 'ps, 'ws, 'l, 'm, 'r) hooks \<Rightarrow> ('v, 'ps, 'ws) call \<Rightarrow> ('v, 'ps, 'ws, 'l, 'm, 'r) frame"
where
  "enter H c =
     \<lparr>state_dict = call_state_dict c,
      storage_writer = call_storage_writer c,
      planner = (case call_planner c of None \<Rightarrow> DefaultSavePlanner H | Some pl \<Rightarrow> pl),
      global_metatadata = None,
      trace = []\<rparr>"

definition local_step ::
  "('v, 'o, 'ps, 'ws, 'l, 'm, 'r) hooks \<Rightarrow> bool \<Rightarrow> ('v, 'ps, 'ws, 'l, 'm, 'r) frame
     \<Rightarrow> 'l \<times> ('v, 'ps, 'ws, 'l, 'm, 'r) frame"
where
  "local_step H is_coord f =
     (let f1 = emit (E_set_up_planner (state_dict f) is_coord)
                 (f\<lparr>planner := pl_set_up_planner H (state_dict f) is_coord (planner f)\<rparr>);
          f2 = emit (E_set_up_storage_writer is_coord)
                 (f1\<lparr>storage_writer := sw_set_up_storage_writer H is_coord (storage_writer f1)\<rparr>);
          (local_plan, ps) = pl_create_local_plan H (planner f2);
          f3 = emit E_create_local_plan (f2\<lparr>planner := ps\<rparr>);
          (local_plan', ws) = sw_prepare_local_plan H local_plan (storage_writer f3);
          f4 = emit (E_prepare_local_plan local_plan) (f3\<lparr>storage_writer := ws\<rparr>)
      in (local_plan', f4))"

definition global_step ::
  "('v, 'o, 'ps, 'ws, 'l, 'm, 'r) hooks \<Rightarrow> 'l list \<Rightarrow> ('v, 'ps, 'ws, 'l, 'm, 'r) frame
     \<Rightarrow> (error + 'l list) \<times> ('v, 'ps, 'ws, 'l, 'm, 'r) frame"
where
  "global_step H all_local_plans f =
     (let ((plans, md), ps) = pl_create_global_plan H all_local_plans (planner f);
          f1 = emit (E_create_global_plan all_local_plans)
                 (f\<lparr>planner := ps, global_metatadata := md\<rparr>);
          (plans', ws) = sw_prepare_global_plan H plans (storage_writer f1);
          f2 = emit (E_prepare_global_plan plans) (f1\<lparr>storage_writer := ws\<rparr>)
      in (Inr plans', f2))"

definition write_data ::
  "('v, 'o, 'ps, 'ws, 'l, 'm, 'r) hooks \<Rightarrow> 'l \<Rightarrow> ('v, 'ps, 'ws, 'l, 'm, 'r) frame
     \<Rightarrow> 'r \<times> ('v, 'ps, 'ws, 'l, 'm, 'r) frame"
where
  "write_data H central_plan f =
     (let (final_local_plan, ps) = pl_finish_plan H central_plan (planner f);
          f1 = emit (E_finish_plan central_plan) (f\<lparr>planner := ps\<rparr>);
          (all_writes, ps', ws) = sw_write_data H final_local_plan (planner f1) (storage_writer f1);
          f2 = emit (E_write_data final_local_plan) (f1\<lparr>planner := ps', storage_writer := ws\<rparr>);
          f3 = emit E_wait f2;
          f4 = emit E_value f3
      in (all_writes, f4))"

definition finish_checkpoint ::
  "('v, 'o, 'ps, 'ws, 'l, 'm, 'r) hooks \<Rightarrow> 'r list \<Rightarrow> ('v, 'ps, 'ws, 'l, 'm, 'r) frame
     \<Rightarrow> (error + 'm) \<times> ('v, 'ps, 'ws, 'l, 'm, 'r) frame"
where
  "finish_checkpoint H all_results f =
     (case global_metatadata f of
        None \<Rightarrow> (Inl (AssertionError []), f)
      | Some md \<Rightarrow>
          (Inr md,
           emit (E_finish md all_results)
             (f\<lparr>storage_writer := sw_finish H md all_results (storage_writer f)\<rparr>)))"

subsection \<open>The collective coordinator (\<^verbatim>\<open>_DistWrapper\<close>, torch/distributed/checkpoint/utils.py)\<close>

text \<open>
  The participants of a run are a list of states, index = rank. A local step is given
  the rank it runs on. \<open>run_local\<close> runs it on every participant.
\<close>

datatype comm = Gather | Scatter | Broadcast

definition run_local :: "(nat \<Rightarrow> 'p \<Rightarrow> 'a \<times> 'p) \<Rightarrow> 'p list \<Rightarrow> ('a \<times> 'p) list" where
  "run_local local_fn procs = map (\<lambda>i. local_fn i (procs ! i)) [0..<length procs]"

text \<open>
  Modelled from the spec: \<^verbatim>\<open>_DistWrapper.__init__\<close> is not in the sources. Spec, glossary:
  the coordinator is the single designated participant; section 4.1: with no
  communication backend only one participant is running, and it runs the global step.
\<close>

definition is_coordinator :: "bool \<Rightarrow> nat \<Rightarrow> nat \<Rightarrow> bool" where
  "is_coordinator use_dist coordinator_rank rank = (if use_dist then rank = coordinator_rank else True)"

text \<open>
  Modelled from the spec: \<^verbatim>\<open>_DistWrapper.reduce_scatter\<close> is not in the sources. Spec,
  section 4.1: every participant executes the local step; if communication is enabled, the
  coordinator gathers the values into a sequence ordered by rank, executes the global step
  on it and distributes element \<open>i\<close> of the result to participant \<open>i\<close>; with one participant
  and no backend the global step is invoked directly on the single-element sequence and its
  single returned element is handed back, with no network step. The result is the list of
  the values the participants' calls return, and the communication steps taken. Spec,
  sections 1 and 4.1: a failure on any rank fails the whole operation; hence an error of
  the global step, a result with no element for some participant, a coordinator rank that
  is no participant, and a run without backend that has not exactly one participant, end
  the collective with an error for the run.
\<close>

definition reduce_scatter ::
  "bool \<Rightarrow> nat \<Rightarrow> (nat \<Rightarrow> 'p \<Rightarrow> 'a \<times> 'p) \<Rightarrow> ('a list \<Rightarrow> 'p \<Rightarrow> (error + 'b list) \<times> 'p) \<Rightarrow> 'p list
     \<Rightarrow> (error + 'b list) \<times> 'p list \<times> comm list"
where
  "reduce_scatter use_dist coordinator_rank local_fn global_fn procs =
     (if use_dist then
        (let ran = run_local local_fn procs; all_data = map fst ran; ps = map snd ran in
         if coordinator_rank < length ps then
           (case global_fn all_data (ps ! coordinator_rank) of
              (Inl e, pc) \<Rightarrow> (Inl e, ps[coordinator_rank := pc], [Gather])
            | (Inr all_results, pc) \<Rightarrow>
                (if length all_results < length ps
                 then (Inl (CollectiveError ''scatter''), ps[coordinator_rank := pc], [Gather])
                 else (Inr (take (length ps) all_results), ps[coordinator_rank := pc],
                       [Gather, Scatter])))
         else (Inl (CollectiveError ''coordinator''), ps, []))
      else
        (case procs of
           [p] \<Rightarrow>
             (let (v, p1) = local_fn 0 p in
              case global_fn [v] p1 of
                (Inl e, p2) \<Rightarrow> (Inl e, [p2], [])
              | (Inr all_results, p2) \<Rightarrow>
                  (case all_results of
                     [] \<Rightarrow> (Inl (CollectiveError ''scatter''), [p2], [])
                   | x # _ \<Rightarrow> (Inr [x], [p2], [])))
         | _ \<Rightarrow> (Inl (CollectiveError ''backend''), procs, [])))"

text \<open>
  Modelled from the spec: \<^verbatim>\<open>_DistWrapper.all_reduce\<close> is not in the sources. Spec, section
  4.1: identical gather step; the global step computes one aggregate value, and every
  participant receives the same value as its return value. Errors as for
  \<open>reduce_scatter\<close>.
\<close>

definition all_reduce ::
  "bool \<Rightarrow> nat \<Rightarrow> (nat \<Rightarrow> 'p \<Rightarrow> 'a \<times> 'p) \<Rightarrow> ('a list \<Rightarrow> 'p \<Rightarrow> (error + 'g) \<times> 'p) \<Rightarrow> 'p list
     \<Rightarrow> (error + 'g list) \<times> 'p list \<times> comm list"
where
  "all_reduce use_dist coordinator_rank local_fn global_fn procs =
     (if use_dist then
        (let ran = run_local local_fn procs; all_data = map fst ran; ps = map snd ran in
         if coordinator_rank < length ps then
           (case global_fn all_data (ps ! coordinator_rank) of
              (Inl e, pc) \<Rightarrow> (Inl e, ps[coordinator_rank := pc], [Gather])
            | (Inr g, pc) \<Rightarrow>
                (Inr (replicate (length ps) g), ps[coordinator_rank := pc], [Gather, Broadcast]))
         else (Inl (CollectiveError ''coordinator''), ps, []))
      else
        (case procs of
           [p] \<Rightarrow>
             (let (v, p1) = local_fn 0 p in
              case global_fn [v] p1 of
                (Inl e, p2) \<Rightarrow> (Inl e, [p2], [])
              | (Inr g, p2) \<Rightarrow> (Inr [g], [p2], []))
         | _ \<Rightarrow> (Inl (CollectiveError ''backend''), procs, [])))"

subsection \<open>\<^verbatim>\<open>_save_state_dict\<close> (lines 296--344)\<close>

text \<open>
  One run: every participant calls \<^verbatim>\<open>_save_state_dict\<close> with its own state dict, writer
  and planner and with the same \<open>coordinator_rank\<close> and \<open>no_dist\<close>. \<open>plan_phase\<close> is
  line 329, whose result is \<^verbatim>\<open>central_plan\<close> on each rank; a rank on which the collective
  raises does not reach line 344.
\<close>

definition plan_phase ::
  "('v, 'o, 'ps, 'ws, 'l, 'm, 'r) hooks \<Rightarrow> ('v, 'ps, 'ws) call list \<Rightarrow> nat \<Rightarrow> bool
     \<Rightarrow> (error + 'l list) \<times> ('v, 'ps, 'ws, 'l, 'm, 'r) frame list \<times> comm list"
where
  "plan_phase H calls coordinator_rank no_dist =
     reduce_scatter (\<not> no_dist) coordinator_rank
       (\<lambda>rank. local_step H (is_coordinator (\<not> no_dist) coordinator_rank rank))
       (global_step H)
       (map (enter H) calls)"

definition priv_save_state_dict ::
  "('v, 'o, 'ps, 'ws, 'l, 'm, 'r) hooks \<Rightarrow> ('v, 'ps, 'ws) call list \<Rightarrow> nat \<Rightarrow> bool
     \<Rightarrow> (error + 'm list) \<times> ('v, 'ps, 'ws, 'l, 'm, 'r) frame list"
where
  "priv_save_state_dict H calls coordinator_rank no_dist =
     (case plan_phase H calls coordinator_rank no_dist of
        (Inl e, frames, _) \<Rightarrow> (Inl e, frames)
      | (Inr central_plan, frames, _) \<Rightarrow>
          (case all_reduce (\<not> no_dist) coordinator_rank
                  (\<lambda>rank. write_data H (central_plan ! rank))
                  (finish_checkpoint H)
                  frames of
             (res, frames', _) \<Rightarrow> (res, frames')))"

subsection \<open>The entry points\<close>

text \<open>
  \<open>dist_ready\<close> is \<^verbatim>\<open>dist.is_available() and dist.is_initialized()\<close>, \<open>default_group\<close>
  what \<^verbatim>\<open>_get_default_group()\<close> returns. The arguments of a call on one rank are a record.
  The state dict is passed by address and the planner by its state at the call. \<^verbatim>\<open>save\<close>
  and \<^verbatim>\<open>save_state_dict\<close> use the writer during the call only and are given its state at
  the call; \<^verbatim>\<open>async_save\<close> shares the writer object with the task it submits and is given
  its address.
\<close>

record env =
  dist_ready :: bool
  default_group :: process_group

record ('ps, 'w) save_args =
  arg_state_dict :: nat
  arg_checkpoint_id :: "string option"
  arg_storage_writer :: "'w option"
  arg_planner :: "'ps option"
  arg_process_group :: "process_group option"

fun collect :: "(error + 'a) list \<Rightarrow> error + 'a list" where
  "collect [] = Inr []"
| "collect (Inl e # xs) = Inl e"
| "collect (Inr x # xs) = (case collect xs of Inl e \<Rightarrow> Inl e | Inr ys \<Rightarrow> Inr (x # ys))"

text \<open>
  Modelled from the spec: \<^verbatim>\<open>_storage_setup\<close> (torch/distributed/checkpoint/\_storage\_utils.py)
  is not in the sources. Spec, section 6: when no writer is given, one must be inferable
  from \<^verbatim>\<open>checkpoint_id\<close>, else a precondition failure is raised.
\<close>

definition priv_storage_setup ::
  "('v, 'o, 'ps, 'ws, 'l, 'm, 'r) hooks \<Rightarrow> 'ws option \<Rightarrow> string option \<Rightarrow> error + 'ws"
where
  "priv_storage_setup H storage checkpoint_id =
     (case storage of
        Some w \<Rightarrow> Inr w
      | None \<Rightarrow>
          (case checkpoint_id of
             None \<Rightarrow> Inl (RuntimeError ''checkpoint_id'')
           | Some cid \<Rightarrow>
               (case infer_writer H cid of
                  None \<Rightarrow> Inl (RuntimeError ''storage_writer'')
                | Some w \<Rightarrow> Inr w)))"

text \<open>\<^verbatim>\<open>save\<close> on one rank up to the call of \<^verbatim>\<open>_save_state_dict\<close> (lines 134--153).\<close>

definition save_prologue ::
  "('v, 'o, 'ps, 'ws, 'l, 'm, 'r) hooks \<Rightarrow> env \<Rightarrow> ('ps, 'ws) save_args \<Rightarrow> ('v, 'o, 'ws) proc
     \<Rightarrow> (error + ('v, 'ps, 'ws) call) \<times> ('v, 'o, 'ws) proc"
where
  "save_prologue H E a p =
     (let no_dist = \<not> dist_ready E;
          p1 = (if no_dist then p\<lparr>log := log p @ [Warn ''torch.distributed is unavailable or uninitialized'']\<rparr> else p)
      in case priv_storage_setup H (arg_storage_writer a) (arg_checkpoint_id a) of
           Inl e \<Rightarrow> (Inl e, p1)
         | Inr w \<Rightarrow>
             (let (r, p2) = priv_stateful_to_state_dict H (arg_state_dict a) p1 in
              (Inr \<lparr>call_state_dict = cells p2 r, call_storage_writer = w,
                    call_planner = arg_planner a\<rparr>, p2)))"

text \<open>
  A run at an entry point. Every rank executes the lines before \<^verbatim>\<open>_save_state_dict\<close> on its
  own; \<open>entered\<close> is what became of each rank there: the error it raised, or the call of
  \<^verbatim>\<open>_save_state_dict\<close> it makes. When every rank makes the call, the run is the run of
  \<^verbatim>\<open>_save_state_dict\<close>. Modelled from the spec, when some rank raised: the operation fails
  (sections 1 and 7), here with the error of the lowest rank that raised; a rank that
  raised has no frame; a rank that entered has executed the local step, with which the
  first collective begins (section 4.1), and waits for the ranks that never come; what
  becomes of it then is left open (section 9). Without a backend a run has one
  participant, and the frame of a rank of a larger run is left as it entered, as in
  \<open>reduce_scatter\<close>.
\<close>

definition run_entered ::
  "('v, 'o, 'ps, 'ws, 'l, 'm, 'r) hooks \<Rightarrow> (error + ('v, 'ps, 'ws) call) list \<Rightarrow> nat \<Rightarrow> bool
     \<Rightarrow> (error + 'm list) \<times> ('v, 'ps, 'ws, 'l, 'm, 'r) frame option list"
where
  "run_entered H entered coordinator_rank no_dist =
     (case collect entered of
        Inr calls \<Rightarrow>
          (case priv_save_state_dict H calls coordinator_rank no_dist of
             (res, frames) \<Rightarrow> (res, map Some frames))
      | Inl e \<Rightarrow>
          (Inl e,
           map (\<lambda>rank. case entered ! rank of
                         Inl _ \<Rightarrow> None
                       | Inr c \<Rightarrow>
                           Some (if no_dist then enter H c
                                 else snd (local_step H
                                        (is_coordinator (\<not> no_dist) coordinator_rank rank)
                                        (enter H c))))
               [0..<length entered]))"

text \<open>
  \<^verbatim>\<open>save\<close> on all ranks of a run: the result of the run, the frame of every rank that
  entered \<^verbatim>\<open>_save_state_dict\<close>, and the processes. \<^verbatim>\<open>save\<close> passes no coordinator rank,
  so it is 0.
\<close>

definition save ::
  "('v, 'o, 'ps, 'ws, 'l, 'm, 'r) hooks \<Rightarrow> env \<Rightarrow> (('ps, 'ws) save_args \<times> ('v, 'o, 'ws) proc) list
     \<Rightarrow> (error + 'm list) \<times> ('v, 'ps, 'ws, 'l, 'm, 'r) frame option list \<times> ('v, 'o, 'ws) proc list"
where
  "save H E inputs =
     (let ran = map (\<lambda>(a, p). save_prologue H E a p) inputs in
      case run_entered H (map fst ran) 0 (\<not> dist_ready E) of
        (res, frames) \<Rightarrow> (res, frames, map snd ran))"

text \<open>
  The deprecated \<^verbatim>\<open>save_state_dict\<close> (lines 25--50). Its writer parameter is not optional;
  \<^verbatim>\<open>None.reset()\<close> raises AttributeError. It has no \<^verbatim>\<open>checkpoint_id\<close>.
\<close>

definition save_state_dict_prologue ::
  "('v, 'o, 'ps, 'ws, 'l, 'm, 'r) hooks \<Rightarrow> ('ps, 'ws) save_args \<Rightarrow> ('v, 'o, 'ws) proc
     \<Rightarrow> (error + ('v, 'ps, 'ws) call) \<times> ('v, 'o, 'ws) proc"
where
  "save_state_dict_prologue H a p =
     (let p1 = p\<lparr>log := log p @ [Warn ''save_state_dict is deprecated'']\<rparr> in
      case arg_storage_writer a of
        None \<Rightarrow> (Inl (AttributeError ''reset''), p1)
      | Some w \<Rightarrow>
          (Inr \<lparr>call_state_dict = cells p1 (arg_state_dict a), call_storage_writer = sw_reset H w,
                call_planner = arg_planner a\<rparr>,
           p1\<lparr>log := log p1 @ [Reset]\<rparr>))"

definition save_state_dict ::
  "('v, 'o, 'ps, 'ws, 'l, 'm, 'r) hooks \<Rightarrow> (('ps, 'ws) save_args \<times> ('v, 'o, 'ws) proc) list \<Rightarrow> nat \<Rightarrow> bool
     \<Rightarrow> (error + 'm list) \<times> ('v, 'ps, 'ws, 'l, 'm, 'r) frame option list \<times> ('v, 'o, 'ws) proc list"
where
  "save_state_dict H inputs coordinator_rank no_dist =
     (let ran = map (\<lambda>(a, p). save_state_dict_prologue H a p) inputs in
      case run_entered H (map fst ran) coordinator_rank no_dist of
        (res, frames) \<Rightarrow> (res, frames, map snd ran))"

text \<open>
  The spec's words (deprecated alias): the same call with the writer reset first.
\<close>

definition reset_first ::
  "('v, 'o, 'ps, 'ws, 'l, 'm, 'r) hooks \<Rightarrow> (('ps, 'ws) save_args \<times> ('v, 'o, 'ws) proc) list
     \<Rightarrow> (('ps, 'ws) save_args \<times> ('v, 'o, 'ws) proc) list"
where
  "reset_first H inputs =
     map (\<lambda>(a, p). (a\<lparr>arg_storage_writer := map_option (sw_reset H) (arg_storage_writer a)\<rparr>, p)) inputs"

text \<open>
  \<^verbatim>\<open>async_save\<close> on one rank (lines 210--283). The writer is an object of the process, given
  by its address: \<^verbatim>\<open>stage\<close> and \<^verbatim>\<open>synchronize\<close> change it where it is, and the task that is
  submitted holds the same object. \<open>stage_state\<close> is lines 264--267;
  \<^verbatim>\<open>isinstance(None, AsyncStager)\<close> is false. The dict \<^verbatim>\<open>stage\<close> returns is the caller's own
  dict or a new one, as the writer decides; \<^verbatim>\<open>_offload_state_dict_to_cpu\<close>
  (torch/distributed/\_state\_dict\_utils.py) is given the dict line 267 has just made and
  its result is a dict no other part of the program holds. The assertion message is
  written up to its first clause.
\<close>

definition isinstance_AsyncStager ::
  "('v, 'o, 'ps, 'ws, 'l, 'm, 'r) hooks \<Rightarrow> ('v, 'o, 'ws) proc \<Rightarrow> nat option \<Rightarrow> bool"
where
  "isinstance_AsyncStager H p w = (case w of None \<Rightarrow> False | Some wa \<Rightarrow> is_AsyncStager H (writers p wa))"

definition alloc :: "'v state_dict \<Rightarrow> ('v, 'o, 'ws) proc \<Rightarrow> nat \<times> ('v, 'o, 'ws) proc" where
  "alloc d p = (next_free p, p\<lparr>cells := (cells p)(next_free p := d), next_free := Suc (next_free p)\<rparr>)"

definition stage_state ::
  "('v, 'o, 'ps, 'ws, 'l, 'm, 'r) hooks \<Rightarrow> ('ps, nat) save_args \<Rightarrow> ('v, 'o, 'ws) proc
     \<Rightarrow> nat \<times> ('v, 'o, 'ws) proc"
where
  "stage_state H a p =
     (case (if isinstance_AsyncStager H p (arg_storage_writer a) then arg_storage_writer a else None) of
        Some wa \<Rightarrow>
          (let d = cells p (arg_state_dict a);
               (staged, w') = sw_stage H d (writers p wa);
               p1 = p\<lparr>writers := (writers p)(wa := w'), log := log p @ [Stage d]\<rparr>
           in case staged of
                None \<Rightarrow> (arg_state_dict a, p1)
              | Some d' \<Rightarrow> alloc d' p1)
      | None \<Rightarrow>
          (let (r1, p1) = priv_stateful_to_state_dict H (arg_state_dict a) p;
               d = cells p1 r1
           in alloc (offload_state_dict_to_cpu H d) (p1\<lparr>log := log p1 @ [Offload d]\<rparr>)))"

datatype 'ps future = Future (task: "('ps, nat) save_args")

definition async_save ::
  "('v, 'o, 'ps, 'ws, 'l, 'm, 'r) hooks \<Rightarrow> env \<Rightarrow> ('ps, nat) save_args \<Rightarrow> executor option
     \<Rightarrow> ('v, 'o, 'ws) proc \<Rightarrow> (error + 'ps future) \<times> ('v, 'o, 'ws) proc"
where
  "async_save H E a executor p =
     (if dist_ready E \<and>
         CPU \<notin> set (device_types (case arg_process_group a of None \<Rightarrow> default_group E | Some pg \<Rightarrow> pg))
      then (Inl (AssertionError ''A CPU backend must be enabled for async save''), p)
      else
        (let (cpu_state_dict, p1) = stage_state H a p;
             ex = (case executor of None \<Rightarrow> ThreadPoolExecutor 1 | Some e \<Rightarrow> e);
             f = Future (a\<lparr>arg_state_dict := cpu_state_dict\<rparr>);
             p2 = p1\<lparr>log := log p1 @ [Submit ex, AddDoneCallback]\<rparr>
         in case (if isinstance_AsyncStager H p2 (arg_storage_writer a) then arg_storage_writer a else None) of
              Some wa \<Rightarrow>
                (if sw_synchronize_after_execute H (writers p2 wa)
                 then (Inr f, p2\<lparr>writers := (writers p2)(wa := sw_synchronize H (writers p2 wa)),
                                 log := log p2 @ [Synchronize]\<rparr>)
                 else (Inr f, p2))
            | None \<Rightarrow> (Inr f, p2)))"

text \<open>
  The value the handles of a run carry. The task of a handle is \<^verbatim>\<open>save\<close> with the arguments
  it was submitted with; it runs on the background executor, when the processes are
  \<open>W\<close>, and the dict and the writer it works on are the objects at the submitted addresses
  as they are then.
\<close>

definition deref :: "('v, 'o, 'ws) proc \<Rightarrow> ('ps, nat) save_args \<Rightarrow> ('ps, 'ws) save_args" where
  "deref p a =
     \<lparr>arg_state_dict = arg_state_dict a, arg_checkpoint_id = arg_checkpoint_id a,
      arg_storage_writer = map_option (writers p) (arg_storage_writer a),
      arg_planner = arg_planner a, arg_process_group = arg_process_group a\<rparr>"

definition future_result ::
  "('v, 'o, 'ps, 'ws, 'l, 'm, 'r) hooks \<Rightarrow> env \<Rightarrow> 'ps future list \<Rightarrow> ('v, 'o, 'ws) proc list
     \<Rightarrow> (error + 'm list) \<times> ('v, 'ps, 'ws, 'l, 'm, 'r) frame option list \<times> ('v, 'o, 'ws) proc list"
where
  "future_result H E futs W = save H E (map (\<lambda>(f, p). (deref p (task f), p)) (zip futs W))"

text \<open>
  The spec's words (sections 4.6 and 8): resolve the stateful objects, then stage, via the
  Stager if available, else by the generic host offload; \<^verbatim>\<open>save(stage(state))\<close> is the
  synchronous save of the state so staged, with the same checkpoint id, writer, planner
  and group.
\<close>

definition spec_stage ::
  "('v, 'o, 'ps, 'ws, 'l, 'm, 'r) hooks \<Rightarrow> ('ps, nat) save_args \<Rightarrow> ('v, 'o, 'ws) proc
     \<Rightarrow> nat \<times> ('v, 'o, 'ws) proc"
where
  "spec_stage H a p =
     (let (r1, p1) = priv_stateful_to_state_dict H (arg_state_dict a) p;
          d = cells p1 r1
      in case (if isinstance_AsyncStager H p1 (arg_storage_writer a) then arg_storage_writer a else None) of
           Some wa \<Rightarrow>
             (let (staged, w') = sw_stage H d (writers p1 wa);
                  p2 = p1\<lparr>writers := (writers p1)(wa := w')\<rparr>
              in case staged of
                   None \<Rightarrow> (r1, p2)
                 | Some d' \<Rightarrow> alloc d' p2)
         | None \<Rightarrow> alloc (offload_state_dict_to_cpu H d) p1)"

definition save_of_staged ::
  "('v, 'o, 'ps, 'ws, 'l, 'm, 'r) hooks \<Rightarrow> env \<Rightarrow> (('ps, nat) save_args \<times> ('v, 'o, 'ws) proc) list
     \<Rightarrow> (error + 'm list) \<times> ('v, 'ps, 'ws, 'l, 'm, 'r) frame option list \<times> ('v, 'o, 'ws) proc list"
where
  "save_of_staged H E inputs =
     save H E
       (map (\<lambda>(a, p). case spec_stage H a p of
                         (staged, p') \<Rightarrow> (deref p' (a\<lparr>arg_state_dict := staged\<rparr>), p')) inputs)"

subsection \<open>The shape of a run\<close>

text \<open>
  A run has a coordinator when, with a backend, the coordinator rank is a participant, and
  without one, when there is exactly one participant; \<open>coord_index\<close> is its rank.
  \<open>protocol_order\<close> is the order of the hooks on one rank (spec, sections 4.2, 4.3, 4.5).
\<close>

definition valid_group :: "bool \<Rightarrow> nat \<Rightarrow> nat \<Rightarrow> bool" where
  "valid_group use_dist coordinator_rank n = (if use_dist then coordinator_rank < n else n = 1)"

definition coord_index :: "bool \<Rightarrow> nat \<Rightarrow> nat" where
  "coord_index use_dist coordinator_rank = (if use_dist then coordinator_rank else 0)"

definition protocol_order :: "bool \<Rightarrow> hook list" where
  "protocol_order is_coord =
     [H_set_up_planner, H_set_up_storage_writer, H_create_local_plan, H_prepare_local_plan] @
     (if is_coord then [H_create_global_plan, H_prepare_global_plan] else []) @
     [H_finish_plan, H_write_data, H_wait, H_value] @
     (if is_coord then [H_finish] else [])"


text \<open>
  The spec's words (sections 4.2, 4.3 and 4.5): what the hooks are called on, and what
  they leave, on one rank. \<open>protocol_local\<close> is the local step: set-up of planner and
  writer, then the local plan created and prepared; it gives the created plan, the
  prepared plan, the planner and the writer. \<open>protocol_global\<close> is the global step of the
  coordinator on the prepared local plans in rank order; it gives the global plan, the
  prepared global plan, the metadata, the planner and the writer. \<open>protocol_write\<close>
  finishes the assigned plan and writes it; it gives the final plan, the write results,
  the planner and the writer.
\<close>

definition protocol_local ::
  "('v, 'o, 'ps, 'ws, 'l, 'm, 'r) hooks \<Rightarrow> bool \<Rightarrow> ('v, 'ps, 'ws) call \<Rightarrow> 'l \<times> 'l \<times> 'ps \<times> 'ws"
where
  "protocol_local H is_coord c =
     (let ps0 = (case call_planner c of None \<Rightarrow> DefaultSavePlanner H | Some pl \<Rightarrow> pl);
          ps1 = pl_set_up_planner H (call_state_dict c) is_coord ps0;
          ws1 = sw_set_up_storage_writer H is_coord (call_storage_writer c);
          created = pl_create_local_plan H ps1;
          prepared = sw_prepare_local_plan H (fst created) ws1
      in (fst created, fst prepared, snd created, snd prepared))"

definition protocol_global ::
  "('v, 'o, 'ps, 'ws, 'l, 'm, 'r) hooks \<Rightarrow> 'l list \<Rightarrow> 'ps \<Rightarrow> 'ws
     \<Rightarrow> 'l list \<times> 'l list \<times> 'm option \<times> 'ps \<times> 'ws"
where
  "protocol_global H all_local_plans ps ws =
     (let created = pl_create_global_plan H all_local_plans ps;
          prepared = sw_prepare_global_plan H (fst (fst created)) ws
      in (fst (fst created), fst prepared, snd (fst created), snd created, snd prepared))"

definition protocol_write ::
  "('v, 'o, 'ps, 'ws, 'l, 'm, 'r) hooks \<Rightarrow> 'l \<Rightarrow> 'ps \<Rightarrow> 'ws \<Rightarrow> 'l \<times> 'r \<times> 'ps \<times> 'ws"
where
  "protocol_write H assigned ps ws =
     (let finished = pl_finish_plan H assigned ps;
          written = sw_write_data H (fst finished) (snd finished) ws
      in (fst finished, fst written, fst (snd written), snd (snd written)))"

text \<open>
  The frame of rank \<open>i\<close> at the end of a run that returns, in the spec's words: every rank
  does the local step; the coordinator does the global step on the prepared plans of all
  ranks; rank \<open>j\<close> is assigned element \<open>j\<close> of the prepared global plan, finishes and writes
  it; the coordinator calls \<^verbatim>\<open>finish\<close> with the metadata and the write results of all
  ranks in rank order.
\<close>

definition protocol_frame ::
  "('v, 'o, 'ps, 'ws, 'l, 'm, 'r) hooks \<Rightarrow> ('v, 'ps, 'ws) call list \<Rightarrow> nat \<Rightarrow> bool \<Rightarrow> nat
     \<Rightarrow> ('v, 'ps, 'ws, 'l, 'm, 'r) frame"
where
  "protocol_frame H calls coordinator_rank no_dist i =
     (let is_coord = is_coordinator (\<not> no_dist) coordinator_rank;
          c = coord_index (\<not> no_dist) coordinator_rank;
          loc = (\<lambda>j. protocol_local H (is_coord j) (calls ! j));
          all_local_plans = map (\<lambda>j. fst (snd (loc j))) [0..<length calls];
          glob = protocol_global H all_local_plans (fst (snd (snd (loc c)))) (snd (snd (snd (loc c))));
          md = fst (snd (snd glob));
          wr = (\<lambda>j. if is_coord j
                     then protocol_write H (fst (snd glob) ! j)
                            (fst (snd (snd (snd glob)))) (snd (snd (snd (snd glob))))
                     else protocol_write H (fst (snd glob) ! j)
                            (fst (snd (snd (loc j)))) (snd (snd (snd (loc j)))));
          all_results = map (\<lambda>j. fst (snd (wr j))) [0..<length calls]
      in \<lparr>state_dict = call_state_dict (calls ! i),
          storage_writer =
            (if is_coord i
             then (case md of None \<Rightarrow> snd (snd (snd (wr i)))
                   | Some m \<Rightarrow> sw_finish H m all_results (snd (snd (snd (wr i)))))
             else snd (snd (snd (wr i)))),
          planner = fst (snd (snd (wr i))),
          global_metatadata = (if is_coord i then md else None),
          trace =
            [E_set_up_planner (call_state_dict (calls ! i)) (is_coord i),
             E_set_up_storage_writer (is_coord i),
             E_create_local_plan,
             E_prepare_local_plan (fst (loc i))] @
            (if is_coord i
             then [E_create_global_plan all_local_plans, E_prepare_global_plan (fst glob)]
             else []) @
            [E_finish_plan (fst (snd glob) ! i), E_write_data (fst (wr i)), E_wait, E_value] @
            (if is_coord i
             then (case md of None \<Rightarrow> [] | Some m \<Rightarrow> [E_finish m all_results])
             else [])\<rparr>)"

subsection \<open>A concrete planner and writer\<close>

text \<open>
  A small instance on which the theorems below are run. Values, objects, plans and write
  results are numbers; a Stateful object snapshots to its own state without changing;
  the planner plans the sum of the values it is set up with (1000 for an object it is
  given unresolved); the metadata is the number and the sum of the local plans; a writer
  is a pair of its being a stager and of a count of what it wrote; a stager stages a
  dict to a new dict with the same items. A process has its state dict at address 0,
  Stateful objects in state 7, a plain writer at address 0 and a stager at address 1.
\<close>

definition toy_value :: "nat elem \<Rightarrow> nat" where
  "toy_value e = (case e of Plain v \<Rightarrow> v | Stateful a \<Rightarrow> 1000)"

definition toy :: "(nat, nat, nat, bool \<times> nat, nat, nat \<times> nat, nat) hooks" where
  "toy =
     \<lparr>st_state_dict = (\<lambda>ob. (ob, ob)),
      DefaultSavePlanner = 0,
      pl_set_up_planner = (\<lambda>sd c ps. sum_list (map (\<lambda>kv. toy_value (snd kv)) sd)),
      pl_create_local_plan = (\<lambda>ps. (ps, ps)),
      pl_create_global_plan = (\<lambda>plans ps. ((plans, Some (length plans, sum_list plans)), ps)),
      pl_finish_plan = (\<lambda>l ps. (l, ps)),
      sw_reset = (\<lambda>ws. (fst ws, 0)),
      sw_set_up_storage_writer = (\<lambda>c ws. ws),
      sw_prepare_local_plan = (\<lambda>l ws. (l, ws)),
      sw_prepare_global_plan = (\<lambda>ls ws. (ls, ws)),
      sw_write_data = (\<lambda>l ps ws. (l, ps, (fst ws, snd ws + l))),
      sw_finish = (\<lambda>m rs ws. (fst ws, snd ws + fst m)),
      is_AsyncStager = fst,
      sw_stage = (\<lambda>sd ws. (Some sd, ws)),
      sw_synchronize_after_execute = (\<lambda>ws. True),
      sw_synchronize = (\<lambda>ws. ws),
      offload_state_dict_to_cpu = (\<lambda>sd. sd),
      infer_writer = (\<lambda>cid. if cid = ''ckpt'' then Some (False, 0) else None)\<rparr>"

definition toy_proc :: "nat state_dict \<Rightarrow> (nat, nat, bool \<times> nat) proc" where
  "toy_proc d =
     \<lparr>cells = (\<lambda>a. if a = 0 then d else []), next_free = 1, objs = (\<lambda>a. 7),
      writers = (\<lambda>a. (a = 1, 0)), log = []\<rparr>"

definition toy_call :: "nat \<Rightarrow> (nat, nat, bool \<times> nat) call" where
  "toy_call v = \<lparr>call_state_dict = [(''x'', Plain v)], call_storage_writer = (False, 0),
                 call_planner = None\<rparr>"

definition toy_args :: "(bool \<times> nat) option \<Rightarrow> (nat, bool \<times> nat) save_args" where
  "toy_args w = \<lparr>arg_state_dict = 0, arg_checkpoint_id = None, arg_storage_writer = w,
                 arg_planner = None, arg_process_group = None\<rparr>"

definition toy_async_args :: "nat option \<Rightarrow> (nat, nat) save_args" where
  "toy_async_args w = \<lparr>arg_state_dict = 0, arg_checkpoint_id = None, arg_storage_writer = w,
                       arg_planner = None, arg_process_group = None\<rparr>"

definition toy_env :: "bool \<Rightarrow> env" where
  "toy_env ready = \<lparr>dist_ready = ready, default_group = \<lparr>device_types = [CUDA]\<rparr>\<rparr>"

text \<open>A state dict that holds a Stateful object, at address 0 of the object store.\<close>

definition toy_stateful_dict :: "nat state_dict" where
  "toy_stateful_dict = [(''a'', Stateful 0), (''b'', Plain 5)]"

section \<open>Properties\<close>

subsection \<open>Resolving Stateful values\<close>

lemma setitem_fresh: "k \<notin> fst ` set d \<Longrightarrow> setitem d k v = d @ [(k, v)]"
  by (induction d) auto

lemma resolved_keys: "map fst (resolved H items os) = map fst items"
proof (induction items arbitrary: os)
  case Nil
  show ?case by simp
next
  case (Cons x xs)
  obtain k e where x: "x = (k, e)" by (cases x)
  show ?case using Cons x by (cases e) simp_all
qed

lemma items_loop_next_free: "next_free (items_loop H r items p) = next_free p"
proof (induction items arbitrary: p)
  case Nil
  show ?case by simp
next
  case (Cons x xs)
  obtain k e where x: "x = (k, e)" by (cases x)
  show ?case using Cons x by (cases e) (simp_all add: Let_def split: prod.splits)
qed

lemma items_loop_cells:
  "distinct (map fst items) \<Longrightarrow> fst ` set items \<inter> fst ` set (cells p r) = {} \<Longrightarrow>
   cells (items_loop H r items p) = (cells p)(r := cells p r @ resolved H items (objs p))"
proof (induction items arbitrary: p)
  case Nil
  show ?case by simp
next
  case (Cons x xs)
  obtain k e where x: "x = (k, e)" by (cases x)
  have fresh: "k \<notin> fst ` set (cells p r)" using Cons.prems(2) x by auto
  have dist: "distinct (map fst xs)" and knew: "k \<notin> fst ` set xs"
    using Cons.prems(1) x by auto
  have disj: "\<And>w. fst ` set xs \<inter> fst ` set (cells p r @ [(k, w)]) = {}"
    using Cons.prems(2) knew by auto
  show ?case
  proof (cases e)
    case (Plain v)
    let ?p = "p\<lparr>cells := (cells p)(r := cells p r @ [(k, Plain v)])\<rparr>"
    have "cells (items_loop H r xs ?p) = (cells ?p)(r := cells ?p r @ resolved H xs (objs ?p))"
      using disj by (intro Cons.IH[OF dist]) simp
    then show ?thesis using x Plain fresh by (simp add: setitem_fresh)
  next
    case (Stateful a)
    obtain v ob where s: "st_state_dict H (objs p a) = (v, ob)"
      by (cases "st_state_dict H (objs p a)")
    let ?p = "p\<lparr>cells := (cells p)(r := cells p r @ [(k, Plain v)]),
                 objs := (objs p)(a := ob), log := log p @ [Snapshot a]\<rparr>"
    have "cells (items_loop H r xs ?p) = (cells ?p)(r := cells ?p r @ resolved H xs (objs ?p))"
      using disj by (intro Cons.IH[OF dist]) simp
    then show ?thesis using x Stateful fresh s by (simp add: setitem_fresh)
  qed
qed

lemma items_loop_objs_other:
  "\<forall>k. (k, Stateful b) \<notin> set items \<Longrightarrow> objs (items_loop H r items p) b = objs p b"
proof (induction items arbitrary: p)
  case Nil
  show ?case by simp
next
  case (Cons x xs)
  obtain k e where x: "x = (k, e)" by (cases x)
  have rest: "\<forall>k. (k, Stateful b) \<notin> set xs" using Cons.prems by auto
  show ?case
  proof (cases e)
    case (Plain v)
    then show ?thesis using Cons.IH[OF rest] x by simp
  next
    case (Stateful a)
    have "a \<noteq> b" using Cons.prems x Stateful by auto
    then show ?thesis using Cons.IH[OF rest] x Stateful by (simp add: Let_def split: prod.splits)
  qed
qed

lemma items_loop_objs_pure:
  "\<forall>ob. snd (st_state_dict H ob) = ob \<Longrightarrow> objs (items_loop H r items p) = objs p"
proof (induction items arbitrary: p)
  case Nil
  show ?case by simp
next
  case (Cons x xs)
  obtain k e where x: "x = (k, e)" by (cases x)
  show ?case
  proof (cases e)
    case (Plain v)
    then show ?thesis using Cons x by simp
  next
    case (Stateful a)
    obtain v ob where s: "st_state_dict H (objs p a) = (v, ob)"
      by (cases "st_state_dict H (objs p a)")
    have "ob = objs p a" using Cons.prems s by (metis snd_conv)
    then show ?thesis using Cons x Stateful s by simp
  qed
qed

lemma resolved_pure:
  "\<forall>ob. snd (st_state_dict H ob) = ob \<Longrightarrow>
   resolved H items os =
     map (\<lambda>(k, e). (k, case e of Plain v \<Rightarrow> Plain v
                        | Stateful a \<Rightarrow> Plain (fst (st_state_dict H (os a))))) items"
proof (induction items arbitrary: os)
  case Nil
  show ?case by simp
next
  case (Cons x xs)
  obtain k e where x: "x = (k, e)" by (cases x)
  show ?case using Cons x by (cases e) simp_all
qed

lemma resolved_plain: "(k, Plain v) \<in> set items \<Longrightarrow> (k, Plain v) \<in> set (resolved H items os)"
proof (induction items arbitrary: os)
  case Nil
  then show ?case by simp
next
  case (Cons x xs)
  obtain k' e where x: "x = (k', e)" by (cases x)
  show ?case using Cons x by (cases e) auto
qed

lemma resolved_stateful:
  "(k, Stateful a) \<in> set items \<Longrightarrow>
   \<exists>ob. (k, Plain (fst (st_state_dict H ob))) \<in> set (resolved H items os)"
proof (induction items arbitrary: os)
  case Nil
  then show ?case by simp
next
  case (Cons x xs)
  obtain k' e where x: "x = (k', e)" by (cases x)
  show ?case
  proof (cases "x = (k, Stateful a)")
    case True
    then show ?thesis by auto
  next
    case False
    then have "(k, Stateful a) \<in> set xs" using Cons.prems by simp
    then have ih: "\<And>os'. \<exists>ob. (k, Plain (fst (st_state_dict H ob))) \<in> set (resolved H xs os')"
      using Cons.IH by blast
    show ?thesis
    proof (cases e)
      case (Plain v)
      then show ?thesis using ih[of os] x by auto
    next
      case (Stateful b)
      then show ?thesis using ih[of "os(b := snd (st_state_dict H (os b)))"] x by auto
    qed
  qed
qed

lemma resolved_all_plain: "(k, e) \<in> set (resolved H items os) \<Longrightarrow> \<exists>v. e = Plain v"
proof (induction items arbitrary: os)
  case Nil
  then show ?case by simp
next
  case (Cons x xs)
  obtain k' e' where x: "x = (k', e')" by (cases x)
  show ?case using Cons x by (cases e') auto
qed

lemma resolved_no_stateful: "\<not> has_stateful items \<Longrightarrow> resolved H items os = items"
proof (induction items arbitrary: os)
  case Nil
  then show ?case by simp
next
  case (Cons x xs)
  obtain k' e' where x: "x = (k', e')" by (cases x)
  show ?case using Cons x by (cases e') auto
qed

lemma items_loop_log_no_stateful: "\<not> has_stateful items \<Longrightarrow> log (items_loop H r items p) = log p"
proof (induction items arbitrary: p)
  case Nil
  then show ?case by simp
next
  case (Cons x xs)
  obtain k' e' where x: "x = (k', e')" by (cases x)
  show ?case using Cons x by (cases e') auto
qed

lemma items_loop_objs_no_stateful: "\<not> has_stateful items \<Longrightarrow> objs (items_loop H r items p) = objs p"
proof (induction items arbitrary: p)
  case Nil
  then show ?case by simp
next
  case (Cons x xs)
  obtain k' e' where x: "x = (k', e')" by (cases x)
  show ?case using Cons x by (cases e') auto
qed

lemma stateful_to_state_dict_fst: "fst (priv_stateful_to_state_dict H sd p) = next_free p"
  by (simp add: priv_stateful_to_state_dict_def Let_def)

lemma stateful_to_state_dict_cells:
  assumes "sd < next_free p" "distinct (map fst (cells p sd))"
  shows "cells (snd (priv_stateful_to_state_dict H sd p)) =
           (cells p)(next_free p := resolved H (cells p sd) (objs p))"
  using assms
  by (simp add: priv_stateful_to_state_dict_def Let_def items_loop_cells)

subsection \<open>The collectives\<close>

lemma run_local_length: "length (run_local lf ps) = length ps"
  by (simp add: run_local_def)

lemma run_local_fst: "map fst (run_local lf ps) = map (\<lambda>j. fst (lf j (ps ! j))) [0..<length ps]"
  by (simp add: run_local_def)

lemma run_local_snd: "map snd (run_local lf ps) = map (\<lambda>j. snd (lf j (ps ! j))) [0..<length ps]"
  by (simp add: run_local_def)

lemma reduce_scatter_result:
  assumes "valid_group ud c (length ps)"
  shows "fst (reduce_scatter ud c lf gf ps) =
     (case fst (gf (map (\<lambda>j. fst (lf j (ps ! j))) [0..<length ps])
                   (snd (lf (coord_index ud c) (ps ! coord_index ud c)))) of
        Inl e \<Rightarrow> Inl e
      | Inr out \<Rightarrow> if length out < length ps then Inl (CollectiveError ''scatter'')
                   else Inr (take (length ps) out))"
proof (cases ud)
  case True
  then have c: "c < length ps" using assms by (simp add: valid_group_def)
  show ?thesis using True c
    by (simp add: reduce_scatter_def Let_def run_local_length run_local_fst run_local_snd coord_index_def
             split: prod.splits sum.splits)
next
  case False
  then obtain p where ps: "ps = [p]" using assms
    by (cases ps) (auto simp: valid_group_def)
  show ?thesis using False ps
    by (auto simp add: reduce_scatter_def Let_def coord_index_def
             split: prod.splits sum.splits list.splits)
qed

lemma reduce_scatter_states:
  assumes "valid_group ud c (length ps)"
  shows "fst (snd (reduce_scatter ud c lf gf ps)) =
     (map (\<lambda>j. snd (lf j (ps ! j))) [0..<length ps])
       [coord_index ud c :=
          snd (gf (map (\<lambda>j. fst (lf j (ps ! j))) [0..<length ps])
                  (snd (lf (coord_index ud c) (ps ! coord_index ud c))))]"
proof (cases ud)
  case True
  then have c: "c < length ps" using assms by (simp add: valid_group_def)
  show ?thesis using True c
    by (simp add: reduce_scatter_def Let_def run_local_length run_local_fst run_local_snd coord_index_def
             split: prod.splits sum.splits)
next
  case False
  then obtain p where ps: "ps = [p]" using assms
    by (cases ps) (auto simp: valid_group_def)
  show ?thesis using False ps
    by (auto simp add: reduce_scatter_def Let_def coord_index_def
             split: prod.splits sum.splits list.splits)
qed

lemma reduce_scatter_invalid:
  assumes "\<not> valid_group ud c (length ps)"
  shows "\<exists>s. fst (reduce_scatter ud c lf gf ps) = Inl (CollectiveError s)"
    and "fst (snd (reduce_scatter ud c lf gf ps)) =
           (if ud then map (\<lambda>j. snd (lf j (ps ! j))) [0..<length ps] else ps)"
  using assms
  by (auto simp add: reduce_scatter_def Let_def valid_group_def run_local_snd run_local_length
           split: list.splits)

lemma reduce_scatter_comms:
  "snd (snd (reduce_scatter ud c lf gf ps)) =
     (if ud then (if c < length ps then
                    (case fst (reduce_scatter ud c lf gf ps) of Inl e \<Rightarrow> [Gather] | Inr x \<Rightarrow> [Gather, Scatter])
                  else [])
      else [])"
  by (auto simp add: reduce_scatter_def Let_def run_local_snd run_local_length
           split: list.splits prod.splits sum.splits)

lemma all_reduce_result:
  assumes "valid_group ud c (length ps)"
  shows "fst (all_reduce ud c lf gf ps) =
     (case fst (gf (map (\<lambda>j. fst (lf j (ps ! j))) [0..<length ps])
                   (snd (lf (coord_index ud c) (ps ! coord_index ud c)))) of
        Inl e \<Rightarrow> Inl e
      | Inr g \<Rightarrow> Inr (replicate (length ps) g))"
proof (cases ud)
  case True
  then have c: "c < length ps" using assms by (simp add: valid_group_def)
  show ?thesis using True c
    by (simp add: all_reduce_def Let_def run_local_length run_local_fst run_local_snd coord_index_def
             split: prod.splits sum.splits)
next
  case False
  then obtain p where ps: "ps = [p]" using assms
    by (cases ps) (auto simp: valid_group_def)
  show ?thesis using False ps
    by (auto simp add: all_reduce_def Let_def coord_index_def
             split: prod.splits sum.splits list.splits)
qed

lemma all_reduce_states:
  assumes "valid_group ud c (length ps)"
  shows "fst (snd (all_reduce ud c lf gf ps)) =
     (map (\<lambda>j. snd (lf j (ps ! j))) [0..<length ps])
       [coord_index ud c :=
          snd (gf (map (\<lambda>j. fst (lf j (ps ! j))) [0..<length ps])
                  (snd (lf (coord_index ud c) (ps ! coord_index ud c))))]"
proof (cases ud)
  case True
  then have c: "c < length ps" using assms by (simp add: valid_group_def)
  show ?thesis using True c
    by (simp add: all_reduce_def Let_def run_local_length run_local_fst run_local_snd coord_index_def
             split: prod.splits sum.splits)
next
  case False
  then obtain p where ps: "ps = [p]" using assms
    by (cases ps) (auto simp: valid_group_def)
  show ?thesis using False ps
    by (auto simp add: all_reduce_def Let_def coord_index_def
             split: prod.splits sum.splits list.splits)
qed

lemma all_reduce_invalid:
  assumes "\<not> valid_group ud c (length ps)"
  shows "\<exists>s. fst (all_reduce ud c lf gf ps) = Inl (CollectiveError s)"
    and "fst (snd (all_reduce ud c lf gf ps)) =
           (if ud then map (\<lambda>j. snd (lf j (ps ! j))) [0..<length ps] else ps)"
  using assms
  by (auto simp add: all_reduce_def Let_def valid_group_def run_local_snd run_local_length
           split: list.splits)

subsection \<open>The closures and the two phases\<close>

lemma is_coordinator_index:
  "valid_group ud c n \<Longrightarrow> i < n \<Longrightarrow> is_coordinator ud c i = (i = coord_index ud c)"
  by (auto simp: valid_group_def is_coordinator_def coord_index_def)

lemma coord_index_less: "valid_group ud c n \<Longrightarrow> coord_index ud c < n"
  by (auto simp: valid_group_def coord_index_def)

lemma local_step_hooks:
  "map hook_of (trace (snd (local_step H b f))) =
     map hook_of (trace f) @
       [H_set_up_planner, H_set_up_storage_writer, H_create_local_plan, H_prepare_local_plan]"
  by (simp add: local_step_def emit_def Let_def split: prod.splits)

lemma local_step_metadata: "global_metatadata (snd (local_step H b f)) = global_metatadata f"
  by (simp add: local_step_def emit_def Let_def split: prod.splits)

lemma global_step_result:
  "fst (global_step H plans f) =
     Inr (fst (sw_prepare_global_plan H (fst (fst (pl_create_global_plan H plans (planner f))))
                 (storage_writer f)))"
  by (simp add: global_step_def emit_def Let_def split: prod.splits)

lemma global_step_hooks:
  "map hook_of (trace (snd (global_step H plans f))) =
     map hook_of (trace f) @ [H_create_global_plan, H_prepare_global_plan]"
  by (simp add: global_step_def emit_def Let_def split: prod.splits)

lemma global_step_metadata:
  "global_metatadata (snd (global_step H plans f)) =
     snd (fst (pl_create_global_plan H plans (planner f)))"
  by (simp add: global_step_def emit_def Let_def split: prod.splits)

lemma write_data_hooks:
  "map hook_of (trace (snd (write_data H cp f))) =
     map hook_of (trace f) @ [H_finish_plan, H_write_data, H_wait, H_value]"
  by (simp add: write_data_def emit_def Let_def split: prod.splits)

lemma write_data_finish_plan: "E_finish_plan cp \<in> set (trace (snd (write_data H cp f)))"
  by (simp add: write_data_def emit_def Let_def split: prod.splits)

lemma write_data_metadata: "global_metatadata (snd (write_data H cp f)) = global_metatadata f"
  by (simp add: write_data_def emit_def Let_def split: prod.splits)

lemma finish_checkpoint_result:
  "fst (finish_checkpoint H rs f) =
     (case global_metatadata f of None \<Rightarrow> Inl (AssertionError []) | Some m \<Rightarrow> Inr m)"
  by (simp add: finish_checkpoint_def split: option.splits)

lemma finish_checkpoint_some:
  "global_metatadata f = Some m \<Longrightarrow>
   trace (snd (finish_checkpoint H rs f)) = trace f @ [E_finish m rs] \<and>
   global_metatadata (snd (finish_checkpoint H rs f)) = Some m"
  by (simp add: finish_checkpoint_def emit_def)

lemma finish_checkpoint_none:
  "global_metatadata f = None \<Longrightarrow> snd (finish_checkpoint H rs f) = f"
  by (simp add: finish_checkpoint_def)

lemma save_state_dict_failed:
  "fst (plan_phase H calls cr nd) = Inl e \<Longrightarrow>
   priv_save_state_dict H calls cr nd = (Inl e, fst (snd (plan_phase H calls cr nd)))"
  by (cases "plan_phase H calls cr nd") (simp add: priv_save_state_dict_def)

lemma save_state_dict_planned:
  "fst (plan_phase H calls cr nd) = Inr cp \<Longrightarrow>
   priv_save_state_dict H calls cr nd =
     (fst (all_reduce (\<not> nd) cr (\<lambda>rank. write_data H (cp ! rank)) (finish_checkpoint H)
            (fst (snd (plan_phase H calls cr nd)))),
      fst (snd (all_reduce (\<not> nd) cr (\<lambda>rank. write_data H (cp ! rank)) (finish_checkpoint H)
            (fst (snd (plan_phase H calls cr nd))))))"
  by (cases "plan_phase H calls cr nd") (simp add: priv_save_state_dict_def split: prod.splits)

lemma plan_phase_invalid:
  assumes "\<not> valid_group (\<not> nd) cr (length calls)"
  shows "\<exists>s. fst (plan_phase H calls cr nd) = Inl (CollectiveError s)"
  using reduce_scatter_invalid(1)[of "\<not> nd" cr "map (enter H) calls"] assms
  by (simp add: plan_phase_def)

lemma plan_phase_length:
  "length (fst (snd (plan_phase H calls cr nd))) = length calls"
proof (cases "valid_group (\<not> nd) cr (length calls)")
  case True
  then show ?thesis by (simp add: plan_phase_def reduce_scatter_states)
next
  case False
  then show ?thesis by (simp add: plan_phase_def reduce_scatter_invalid(2))
qed

lemma plan_phase_frame:
  assumes "valid_group (\<not> nd) cr (length calls)" and "i < length calls"
  shows "fst (snd (plan_phase H calls cr nd)) ! i =
     (if i = coord_index (\<not> nd) cr
      then snd (global_step H
             (map (\<lambda>j. fst (local_step H (is_coordinator (\<not> nd) cr j) (enter H (calls ! j))))
                  [0..<length calls])
             (snd (local_step H True (enter H (calls ! i)))))
      else snd (local_step H False (enter H (calls ! i))))"
proof -
  have c: "coord_index (\<not> nd) cr < length calls" using assms(1) by (rule coord_index_less)
  have m: "map (\<lambda>j. fst (local_step H (is_coordinator (\<not> nd) cr j) (map (enter H) calls ! j)))
             [0..<length calls] =
           map (\<lambda>j. fst (local_step H (is_coordinator (\<not> nd) cr j) (enter H (calls ! j))))
             [0..<length calls]"
    by (rule map_cong) auto
  show ?thesis
    using assms c is_coordinator_index[OF assms(1)]
    by (simp add: plan_phase_def reduce_scatter_states m nth_list_update)
qed

lemma plan_phase_result:
  assumes "valid_group (\<not> nd) cr (length calls)"
  shows "fst (plan_phase H calls cr nd) =
     (case fst (global_step H
             (map (\<lambda>j. fst (local_step H (is_coordinator (\<not> nd) cr j) (enter H (calls ! j))))
                  [0..<length calls])
             (snd (local_step H True (enter H (calls ! coord_index (\<not> nd) cr))))) of
        Inl e \<Rightarrow> Inl e
      | Inr out \<Rightarrow> if length out < length calls then Inl (CollectiveError ''scatter'')
                   else Inr (take (length calls) out))"
proof -
  have c: "coord_index (\<not> nd) cr < length calls" using assms(1) by (rule coord_index_less)
  have m: "map (\<lambda>j. fst (local_step H (is_coordinator (\<not> nd) cr j) (map (enter H) calls ! j)))
             [0..<length calls] =
           map (\<lambda>j. fst (local_step H (is_coordinator (\<not> nd) cr j) (enter H (calls ! j))))
             [0..<length calls]"
    by (rule map_cong) auto
  show ?thesis
    using assms c is_coordinator_index[OF assms(1) c]
    by (simp add: plan_phase_def reduce_scatter_result m split: sum.splits)
qed


lemma plan_phase_only_collective_errors:
  "fst (plan_phase H calls cr nd) = Inl e \<Longrightarrow> \<exists>s. e = CollectiveError s"
proof (cases "valid_group (\<not> nd) cr (length calls)")
  case True
  assume "fst (plan_phase H calls cr nd) = Inl e"
  then show ?thesis
    using True by (auto simp: plan_phase_result global_step_result split: if_splits)
next
  case False
  assume "fst (plan_phase H calls cr nd) = Inl e"
  then show ?thesis using plan_phase_invalid[OF False, of H] by auto
qed

lemma plan_phase_returns:
  assumes "fst (plan_phase H calls cr nd) = Inr cp"
  shows "valid_group (\<not> nd) cr (length calls)" and "length cp = length calls"
proof -
  show v: "valid_group (\<not> nd) cr (length calls)"
    using assms plan_phase_invalid[of nd cr calls H] by (cases "valid_group (\<not> nd) cr (length calls)") auto
  show "length cp = length calls"
    using assms v by (auto simp: plan_phase_result global_step_result split: if_splits)
qed

lemma plan_phase_coordinator_metadata:
  assumes "valid_group (\<not> nd) cr (length calls)"
  shows "global_metatadata (fst (snd (plan_phase H calls cr nd)) ! coord_index (\<not> nd) cr) =
     snd (fst (pl_create_global_plan H
       (map (\<lambda>j. fst (local_step H (is_coordinator (\<not> nd) cr j) (enter H (calls ! j))))
            [0..<length calls])
       (planner (snd (local_step H True (enter H (calls ! coord_index (\<not> nd) cr)))))))"
  using assms coord_index_less[OF assms]
  by (simp add: plan_phase_frame global_step_metadata)

text \<open>The write phase, on the frames the plan phase leaves.\<close>

lemma write_phase_result:
  assumes "fst (plan_phase H calls cr nd) = Inr cp"
  shows "fst (priv_save_state_dict H calls cr nd) =
     (case global_metatadata (fst (snd (plan_phase H calls cr nd)) ! coord_index (\<not> nd) cr) of
        None \<Rightarrow> Inl (AssertionError [])
      | Some m \<Rightarrow> Inr (replicate (length calls) m))"
proof -
  have v: "valid_group (\<not> nd) cr (length (fst (snd (plan_phase H calls cr nd))))"
    using plan_phase_returns(1)[OF assms] by (simp add: plan_phase_length)
  show ?thesis
    by (simp add: save_state_dict_planned[OF assms] all_reduce_result[OF v]
          finish_checkpoint_result write_data_metadata plan_phase_length
          split: option.splits)
qed

lemma write_phase_frame:
  assumes "fst (plan_phase H calls cr nd) = Inr cp" and "i < length calls"
  shows "snd (priv_save_state_dict H calls cr nd) ! i =
     (if i = coord_index (\<not> nd) cr
      then snd (finish_checkpoint H
             (map (\<lambda>j. fst (write_data H (cp ! j) (fst (snd (plan_phase H calls cr nd)) ! j)))
                  [0..<length calls])
             (snd (write_data H (cp ! i) (fst (snd (plan_phase H calls cr nd)) ! i))))
      else snd (write_data H (cp ! i) (fst (snd (plan_phase H calls cr nd)) ! i)))"
proof -
  have v: "valid_group (\<not> nd) cr (length (fst (snd (plan_phase H calls cr nd))))"
    using plan_phase_returns(1)[OF assms(1)] by (simp add: plan_phase_length)
  show ?thesis using assms(2)
    by (simp add: save_state_dict_planned[OF assms(1)] all_reduce_states[OF v]
          plan_phase_length nth_list_update)
qed

lemma enter_trace: "trace (enter H c) = []"
  by (simp add: enter_def)

lemma valid_group_nonempty: "valid_group ud c n \<Longrightarrow> 0 < n"
  by (auto simp: valid_group_def split: if_splits)

lemma save_state_dict_returns:
  assumes "fst (priv_save_state_dict H calls cr nd) = Inr ms"
  shows "\<exists>cp. fst (plan_phase H calls cr nd) = Inr cp"
proof (cases "fst (plan_phase H calls cr nd)")
  case (Inl e)
  then show ?thesis using assms save_state_dict_failed[OF Inl] by simp
next
  case (Inr cp)
  then show ?thesis by blast
qed

text \<open>
  Claim C1. Whenever a run of \<^verbatim>\<open>_save_state_dict\<close> returns, on any number of participants,
  every rank is returned the same metadata: the value the coordinator's
  \<^verbatim>\<open>finish_checkpoint\<close> returned, which is the coordinator's \<^verbatim>\<open>global_metatadata\<close>, the
  metadata \<^verbatim>\<open>create_global_plan\<close> computed on the local plans in rank order. A run that
  returns has at least one participant. The collective is the one modelled from the spec.
\<close>

theorem all_ranks_same_metadata:
  assumes "priv_save_state_dict H calls cr nd = (Inr ms, frames)"
  shows "calls \<noteq> [] \<and> length ms = length calls \<and>
    (\<exists>m. (\<forall>i<length calls. ms ! i = m) \<and>
         global_metatadata (frames ! coord_index (\<not> nd) cr) = Some m \<and>
         (\<exists>rs. last (trace (frames ! coord_index (\<not> nd) cr)) = E_finish m rs) \<and>
         snd (fst (pl_create_global_plan H
           (map (\<lambda>j. fst (local_step H (is_coordinator (\<not> nd) cr j) (enter H (calls ! j))))
                [0..<length calls])
           (planner (snd (local_step H True (enter H (calls ! coord_index (\<not> nd) cr))))))) = Some m)"
proof -
  have r: "fst (priv_save_state_dict H calls cr nd) = Inr ms"
    and fr: "frames = snd (priv_save_state_dict H calls cr nd)" using assms by simp_all
  obtain cp where cp: "fst (plan_phase H calls cr nd) = Inr cp"
    using save_state_dict_returns[OF r] by blast
  have v: "valid_group (\<not> nd) cr (length calls)" using plan_phase_returns(1)[OF cp] .
  have c: "coord_index (\<not> nd) cr < length calls" using v by (rule coord_index_less)
  let ?f1 = "fst (snd (plan_phase H calls cr nd)) ! coord_index (\<not> nd) cr"
  obtain m where m: "global_metatadata ?f1 = Some m" and ms: "ms = replicate (length calls) m"
    using r write_phase_result[OF cp] by (auto split: option.splits)
  have wm: "global_metatadata (snd (write_data H (cp ! coord_index (\<not> nd) cr) ?f1)) = Some m"
    using m by (simp add: write_data_metadata)
  have "calls \<noteq> []" using valid_group_nonempty[OF v] by auto
  moreover have "length ms = length calls" using ms by simp
  moreover have "\<forall>i<length calls. ms ! i = m" using ms by simp
  moreover have "global_metatadata (frames ! coord_index (\<not> nd) cr) = Some m"
    using c wm by (simp add: fr write_phase_frame[OF cp c] finish_checkpoint_some)
  moreover have "\<exists>rs. last (trace (frames ! coord_index (\<not> nd) cr)) = E_finish m rs"
    using c by (simp add: fr write_phase_frame[OF cp c] finish_checkpoint_some[OF wm])
  moreover have "snd (fst (pl_create_global_plan H
           (map (\<lambda>j. fst (local_step H (is_coordinator (\<not> nd) cr j) (enter H (calls ! j))))
                [0..<length calls])
           (planner (snd (local_step H True (enter H (calls ! coord_index (\<not> nd) cr))))))) = Some m"
    using m plan_phase_coordinator_metadata[OF v, of H] by simp
  ultimately show ?thesis by blast
qed

text \<open>
  Claim C2. When the plan phase returns, \<^verbatim>\<open>central_plan\<close> on rank \<open>i\<close> is element \<open>i\<close> of
  what \<^verbatim>\<open>global_step\<close> returned for the local plans of all ranks in rank order, run on the
  coordinator after its own local step. With no backend there is one participant, the
  global step is run on the single-element sequence and no communication step is taken;
  with a backend the steps are one gather and one scatter. The collective is the one
  modelled from the spec.
\<close>

theorem central_plan_index_fidelity:
  assumes "plan_phase H calls cr nd = (Inr central_plan, frames, comms)"
  shows "length central_plan = length calls \<and>
    (\<exists>out. fst (global_step H
               (map (\<lambda>j. fst (local_step H (is_coordinator (\<not> nd) cr j) (enter H (calls ! j))))
                    [0..<length calls])
               (snd (local_step H True (enter H (calls ! coord_index (\<not> nd) cr))))) = Inr out \<and>
          (\<forall>i<length calls. i < length out \<and> central_plan ! i = out ! i)) \<and>
    (if nd then length calls = 1 \<and> comms = [] else comms = [Gather, Scatter])"
proof -
  have cp: "fst (plan_phase H calls cr nd) = Inr central_plan" using assms by simp
  have v: "valid_group (\<not> nd) cr (length calls)" using plan_phase_returns(1)[OF cp] .
  have cm: "comms = snd (snd (plan_phase H calls cr nd))" using assms by simp
  have "length central_plan = length calls" using plan_phase_returns(2)[OF cp] .
  moreover have "\<exists>out. fst (global_step H
               (map (\<lambda>j. fst (local_step H (is_coordinator (\<not> nd) cr j) (enter H (calls ! j))))
                    [0..<length calls])
               (snd (local_step H True (enter H (calls ! coord_index (\<not> nd) cr))))) = Inr out \<and>
          (\<forall>i<length calls. i < length out \<and> central_plan ! i = out ! i)"
    using cp plan_phase_result[OF v, of H]
    by (auto simp: global_step_result split: if_splits)
  moreover have "if nd then length calls = 1 \<and> comms = [] else comms = [Gather, Scatter]"
    using v cp unfolding cm
    by (auto simp: plan_phase_def reduce_scatter_comms valid_group_def)
  ultimately show ?thesis by blast
qed

text \<open>
  Claim C10. If \<^verbatim>\<open>create_global_plan\<close> never returns \<^verbatim>\<open>None\<close> as its metadata, no run of
  \<^verbatim>\<open>_save_state_dict\<close> ends in the AssertionError of \<^verbatim>\<open>finish_checkpoint\<close>: once the plan
  phase has returned, the coordinator's \<^verbatim>\<open>global_metatadata\<close> is set, and the run returns
  a metadata to every rank.
\<close>

theorem finish_checkpoint_assertion_holds:
  assumes "\<forall>plans ps. snd (fst (pl_create_global_plan H plans ps)) \<noteq> None"
  shows "(\<forall>s. fst (priv_save_state_dict H calls cr nd) \<noteq> Inl (AssertionError s)) \<and>
    (\<forall>cp. fst (plan_phase H calls cr nd) = Inr cp \<longrightarrow>
       global_metatadata (fst (snd (plan_phase H calls cr nd)) ! coord_index (\<not> nd) cr) \<noteq> None \<and>
       (\<exists>m. fst (priv_save_state_dict H calls cr nd) = Inr (replicate (length calls) m)))"
proof -
  have planned: "global_metatadata (fst (snd (plan_phase H calls cr nd)) ! coord_index (\<not> nd) cr) \<noteq> None
      \<and> (\<exists>m. fst (priv_save_state_dict H calls cr nd) = Inr (replicate (length calls) m))"
    if cp: "fst (plan_phase H calls cr nd) = Inr cp" for cp
  proof -
    have v: "valid_group (\<not> nd) cr (length calls)" using plan_phase_returns(1)[OF cp] .
    have g: "global_metatadata (fst (snd (plan_phase H calls cr nd)) ! coord_index (\<not> nd) cr) \<noteq> None"
      using assms by (simp add: plan_phase_coordinator_metadata[OF v])
    then show ?thesis using write_phase_result[OF cp] by (auto split: option.splits)
  qed
  have "fst (priv_save_state_dict H calls cr nd) \<noteq> Inl (AssertionError s)" for s
  proof (cases "fst (plan_phase H calls cr nd)")
    case (Inl e)
    then show ?thesis
      using plan_phase_only_collective_errors[OF Inl] save_state_dict_failed[OF Inl] by auto
  next
    case (Inr cp)
    then show ?thesis using planned[OF Inr] by auto
  qed
  then show ?thesis using planned by blast
qed

lemma plan_phase_invalid_frame:
  assumes "\<not> valid_group (\<not> nd) cr (length calls)" and "i < length calls"
  shows "fst (snd (plan_phase H calls cr nd)) ! i =
     (if nd then enter H (calls ! i)
      else snd (local_step H (is_coordinator (\<not> nd) cr i) (enter H (calls ! i))))"
  using assms by (simp add: plan_phase_def reduce_scatter_invalid(2))

lemma plan_frame_hooks:
  assumes "valid_group (\<not> nd) cr (length calls)" and "i < length calls"
  shows "map hook_of (trace (fst (snd (plan_phase H calls cr nd)) ! i)) =
     [H_set_up_planner, H_set_up_storage_writer, H_create_local_plan, H_prepare_local_plan] @
     (if is_coordinator (\<not> nd) cr i then [H_create_global_plan, H_prepare_global_plan] else [])"
  using assms is_coordinator_index[OF assms]
  by (simp add: plan_phase_frame global_step_hooks local_step_hooks enter_trace)

lemma unplanned_hooks_prefix:
  assumes "fst (plan_phase H calls cr nd) = Inl e" and "i < length calls"
  shows "prefix (map hook_of (trace (snd (priv_save_state_dict H calls cr nd) ! i)))
           (protocol_order (is_coordinator (\<not> nd) cr i))"
proof (cases "valid_group (\<not> nd) cr (length calls)")
  case True
  show ?thesis
    by (simp add: save_state_dict_failed[OF assms(1)] plan_frame_hooks[OF True assms(2)]
          protocol_order_def)
next
  case False
  show ?thesis
    by (simp add: save_state_dict_failed[OF assms(1)] plan_phase_invalid_frame[OF False assms(2)]
          local_step_hooks enter_trace protocol_order_def)
qed

lemma written_hooks:
  assumes "fst (plan_phase H calls cr nd) = Inr cp" and "i < length calls"
  shows "map hook_of (trace (snd (write_data H (cp ! i) (fst (snd (plan_phase H calls cr nd)) ! i)))) =
     [H_set_up_planner, H_set_up_storage_writer, H_create_local_plan, H_prepare_local_plan] @
     (if is_coordinator (\<not> nd) cr i then [H_create_global_plan, H_prepare_global_plan] else []) @
     [H_finish_plan, H_write_data, H_wait, H_value]"
  using plan_frame_hooks[OF plan_phase_returns(1)[OF assms(1)] assms(2), of H]
  by (simp add: write_data_hooks)

lemma planned_hooks_prefix:
  assumes "fst (plan_phase H calls cr nd) = Inr cp" and "i < length calls"
  shows "prefix (map hook_of (trace (snd (priv_save_state_dict H calls cr nd) ! i)))
           (protocol_order (is_coordinator (\<not> nd) cr i))"
proof -
  have v: "valid_group (\<not> nd) cr (length calls)" using plan_phase_returns(1)[OF assms(1)] .
  note ic = is_coordinator_index[OF v assms(2)]
  define w where "w = snd (write_data H (cp ! i) (fst (snd (plan_phase H calls cr nd)) ! i))"
  define rs where "rs = map (\<lambda>j. fst (write_data H (cp ! j) (fst (snd (plan_phase H calls cr nd)) ! j)))
                 [0..<length calls]"
  define fi where "fi = snd (priv_save_state_dict H calls cr nd) ! i"
  have fr: "fi = (if is_coordinator (\<not> nd) cr i then snd (finish_checkpoint H rs w) else w)"
    unfolding fi_def w_def rs_def ic by (rule write_phase_frame[OF assms])
  have hw: "map hook_of (trace w) =
     [H_set_up_planner, H_set_up_storage_writer, H_create_local_plan, H_prepare_local_plan] @
     (if is_coordinator (\<not> nd) cr i then [H_create_global_plan, H_prepare_global_plan] else []) @
     [H_finish_plan, H_write_data, H_wait, H_value]"
    unfolding w_def by (rule written_hooks[OF assms])
  have "prefix (map hook_of (trace fi)) (protocol_order (is_coordinator (\<not> nd) cr i))"
  proof (cases "is_coordinator (\<not> nd) cr i")
    case False
    then show ?thesis using hw by (simp add: fr protocol_order_def)
  next
    case True
    show ?thesis
    proof (cases "global_metatadata w")
      case None
      then show ?thesis using True hw
        by (simp add: fr finish_checkpoint_none protocol_order_def)
    next
      case (Some m)
      then show ?thesis using True hw
        by (simp add: fr finish_checkpoint_some protocol_order_def)
    qed
  qed
  then show ?thesis by (simp add: fi_def)
qed

lemma returned_hooks:
  assumes "fst (priv_save_state_dict H calls cr nd) = Inr ms" and "i < length calls"
  shows "map hook_of (trace (snd (priv_save_state_dict H calls cr nd) ! i)) =
           protocol_order (is_coordinator (\<not> nd) cr i)"
    and "\<exists>cp. fst (plan_phase H calls cr nd) = Inr cp \<and>
           E_finish_plan (cp ! i) \<in> set (trace (snd (priv_save_state_dict H calls cr nd) ! i))"
    and "is_coordinator (\<not> nd) cr i \<longrightarrow>
           (\<exists>rs. length rs = length calls \<and>
              E_finish (ms ! i) rs \<in> set (trace (snd (priv_save_state_dict H calls cr nd) ! i)))"
proof -
  obtain cp where cp: "fst (plan_phase H calls cr nd) = Inr cp"
    using save_state_dict_returns[OF assms(1)] by blast
  have v: "valid_group (\<not> nd) cr (length calls)" using plan_phase_returns(1)[OF cp] .
  note ic = is_coordinator_index[OF v assms(2)]
  define w where "w = snd (write_data H (cp ! i) (fst (snd (plan_phase H calls cr nd)) ! i))"
  define rs where "rs = map (\<lambda>j. fst (write_data H (cp ! j) (fst (snd (plan_phase H calls cr nd)) ! j)))
                 [0..<length calls]"
  define fi where "fi = snd (priv_save_state_dict H calls cr nd) ! i"
  have fr: "fi = (if is_coordinator (\<not> nd) cr i then snd (finish_checkpoint H rs w) else w)"
    unfolding fi_def w_def rs_def ic by (rule write_phase_frame[OF cp assms(2)])
  have hw: "map hook_of (trace w) =
     [H_set_up_planner, H_set_up_storage_writer, H_create_local_plan, H_prepare_local_plan] @
     (if is_coordinator (\<not> nd) cr i then [H_create_global_plan, H_prepare_global_plan] else []) @
     [H_finish_plan, H_write_data, H_wait, H_value]"
    unfolding w_def by (rule written_hooks[OF cp assms(2)])
  have fp: "E_finish_plan (cp ! i) \<in> set (trace w)"
    unfolding w_def by (rule write_data_finish_plan)
  obtain m where m: "global_metatadata (fst (snd (plan_phase H calls cr nd)) ! coord_index (\<not> nd) cr) = Some m"
    and ms: "ms = replicate (length calls) m"
    using assms(1) write_phase_result[OF cp] by (auto split: option.splits)
  have msi: "ms ! i = m" using ms assms(2) by simp
  have wm: "is_coordinator (\<not> nd) cr i \<Longrightarrow> global_metatadata w = Some m"
    using m ic by (simp add: w_def write_data_metadata)
  have lrs: "length rs = length calls" by (simp add: rs_def)
  have "map hook_of (trace fi) = protocol_order (is_coordinator (\<not> nd) cr i)"
    using hw wm by (cases "is_coordinator (\<not> nd) cr i")
      (simp_all add: fr finish_checkpoint_some protocol_order_def)
  then show "map hook_of (trace (snd (priv_save_state_dict H calls cr nd) ! i)) =
           protocol_order (is_coordinator (\<not> nd) cr i)"
    by (simp add: fi_def)
  have "E_finish_plan (cp ! i) \<in> set (trace fi)"
    using fp wm by (cases "is_coordinator (\<not> nd) cr i") (simp_all add: fr finish_checkpoint_some)
  then show "\<exists>cp. fst (plan_phase H calls cr nd) = Inr cp \<and>
           E_finish_plan (cp ! i) \<in> set (trace (snd (priv_save_state_dict H calls cr nd) ! i))"
    using cp by (auto simp: fi_def)
  have "is_coordinator (\<not> nd) cr i \<Longrightarrow> E_finish (ms ! i) rs \<in> set (trace fi)"
    using wm msi by (simp add: fr finish_checkpoint_some)
  then show "is_coordinator (\<not> nd) cr i \<longrightarrow>
           (\<exists>rs. length rs = length calls \<and>
              E_finish (ms ! i) rs \<in> set (trace (snd (priv_save_state_dict H calls cr nd) ! i)))"
    using lrs by (auto simp: fi_def)
qed

text \<open>The frame a rank ends with, against the protocol of the spec.\<close>

lemma local_step_protocol:
  "local_step H b (enter H c) =
     (fst (snd (protocol_local H b c)),
      \<lparr>state_dict = call_state_dict c,
       storage_writer = snd (snd (snd (protocol_local H b c))),
       planner = fst (snd (snd (protocol_local H b c))),
       global_metatadata = None,
       trace = [E_set_up_planner (call_state_dict c) b, E_set_up_storage_writer b,
                E_create_local_plan, E_prepare_local_plan (fst (protocol_local H b c))]\<rparr>)"
  by (simp add: local_step_def enter_def emit_def protocol_local_def Let_def case_prod_beta)

lemma global_step_protocol:
  "global_step H plans
     \<lparr>state_dict = sd, storage_writer = ws, planner = ps, global_metatadata = g, trace = t\<rparr> =
     (Inr (fst (snd (protocol_global H plans ps ws))),
      \<lparr>state_dict = sd,
       storage_writer = snd (snd (snd (snd (protocol_global H plans ps ws)))),
       planner = fst (snd (snd (snd (protocol_global H plans ps ws)))),
       global_metatadata = fst (snd (snd (protocol_global H plans ps ws))),
       trace = t @ [E_create_global_plan plans,
                    E_prepare_global_plan (fst (protocol_global H plans ps ws))]\<rparr>)"
  by (simp add: global_step_def emit_def protocol_global_def Let_def case_prod_beta)

lemma write_data_protocol:
  "write_data H cp
     \<lparr>state_dict = sd, storage_writer = ws, planner = ps, global_metatadata = g, trace = t\<rparr> =
     (fst (snd (protocol_write H cp ps ws)),
      \<lparr>state_dict = sd,
       storage_writer = snd (snd (snd (protocol_write H cp ps ws))),
       planner = fst (snd (snd (protocol_write H cp ps ws))),
       global_metatadata = g,
       trace = t @ [E_finish_plan cp, E_write_data (fst (protocol_write H cp ps ws)),
                    E_wait, E_value]\<rparr>)"
  by (simp add: write_data_def emit_def protocol_write_def Let_def case_prod_beta)

lemma finish_checkpoint_protocol:
  "snd (finish_checkpoint H rs
     \<lparr>state_dict = sd, storage_writer = ws, planner = ps, global_metatadata = g, trace = t\<rparr>) =
     \<lparr>state_dict = sd,
      storage_writer = (case g of None \<Rightarrow> ws | Some m \<Rightarrow> sw_finish H m rs ws),
      planner = ps,
      global_metatadata = g,
      trace = t @ (case g of None \<Rightarrow> [] | Some m \<Rightarrow> [E_finish m rs])\<rparr>"
  by (simp add: finish_checkpoint_def emit_def split: option.splits)

lemma returned_frame:
  assumes "fst (priv_save_state_dict H calls cr nd) = Inr ms" and "i < length calls"
  shows "snd (priv_save_state_dict H calls cr nd) ! i = protocol_frame H calls cr nd i"
    and "Some (ms ! i) =
           fst (snd (snd (protocol_global H
             (map (\<lambda>j. fst (snd (protocol_local H (is_coordinator (\<not> nd) cr j) (calls ! j))))
                  [0..<length calls])
             (fst (snd (snd (protocol_local H True (calls ! coord_index (\<not> nd) cr)))))
             (snd (snd (snd (protocol_local H True (calls ! coord_index (\<not> nd) cr))))))))"
proof -
  obtain cp where cp: "fst (plan_phase H calls cr nd) = Inr cp"
    using save_state_dict_returns[OF assms(1)] by blast
  have v: "valid_group (\<not> nd) cr (length calls)" using plan_phase_returns(1)[OF cp] .
  have c: "coord_index (\<not> nd) cr < length calls" using v by (rule coord_index_less)
  note ic = is_coordinator_index[OF v]
  have icc: "is_coordinator (\<not> nd) cr (coord_index (\<not> nd) cr)" using ic[OF c] by simp
  define loc where "loc = (\<lambda>j. protocol_local H (is_coordinator (\<not> nd) cr j) (calls ! j))"
  define alp where "alp = map (\<lambda>j. fst (snd (loc j))) [0..<length calls]"
  define glob where "glob = protocol_global H alp (fst (snd (snd (loc (coord_index (\<not> nd) cr)))))
                              (snd (snd (snd (loc (coord_index (\<not> nd) cr)))))"
  define wr where "wr = (\<lambda>j. if is_coordinator (\<not> nd) cr j
                     then protocol_write H (fst (snd glob) ! j)
                            (fst (snd (snd (snd glob)))) (snd (snd (snd (snd glob))))
                     else protocol_write H (fst (snd glob) ! j)
                            (fst (snd (snd (loc j)))) (snd (snd (snd (loc j)))))"
  define pf where "pf = fst (snd (plan_phase H calls cr nd))"
  have locc: "loc (coord_index (\<not> nd) cr) = protocol_local H True (calls ! coord_index (\<not> nd) cr)"
    using icc by (simp add: loc_def)
  have alp': "map (\<lambda>j. fst (local_step H (is_coordinator (\<not> nd) cr j) (enter H (calls ! j))))
                [0..<length calls] = alp"
    by (simp add: alp_def loc_def local_step_protocol)
  have res: "fst (plan_phase H calls cr nd) =
       (if length (fst (snd glob)) < length calls then Inl (CollectiveError ''scatter'')
        else Inr (take (length calls) (fst (snd glob))))"
    unfolding plan_phase_result[OF v] alp'
    by (simp add: local_step_protocol global_step_protocol glob_def locc)
  have cpv: "cp = take (length calls) (fst (snd glob))" and len: "length calls \<le> length (fst (snd glob))"
    using cp res by (auto split: if_splits)
  have cpj: "cp ! j = fst (snd glob) ! j" if "j < length calls" for j
    using that by (simp add: cpv)
  have pfj: "pf ! j =
      (if is_coordinator (\<not> nd) cr j
       then \<lparr>state_dict = call_state_dict (calls ! j),
             storage_writer = snd (snd (snd (snd glob))),
             planner = fst (snd (snd (snd glob))),
             global_metatadata = fst (snd (snd glob)),
             trace = [E_set_up_planner (call_state_dict (calls ! j)) True, E_set_up_storage_writer True,
                      E_create_local_plan, E_prepare_local_plan (fst (loc j)),
                      E_create_global_plan alp, E_prepare_global_plan (fst glob)]\<rparr>
       else \<lparr>state_dict = call_state_dict (calls ! j),
             storage_writer = snd (snd (snd (loc j))),
             planner = fst (snd (snd (loc j))),
             global_metatadata = None,
             trace = [E_set_up_planner (call_state_dict (calls ! j)) False, E_set_up_storage_writer False,
                      E_create_local_plan, E_prepare_local_plan (fst (loc j))]\<rparr>)"
    if j: "j < length calls" for j
  proof (cases "j = coord_index (\<not> nd) cr")
    case True
    show ?thesis
      unfolding pf_def plan_phase_frame[OF v j] alp'
      using True icc by (simp add: local_step_protocol global_step_protocol glob_def locc)
  next
    case False
    then have n: "\<not> is_coordinator (\<not> nd) cr j" using ic[OF j] by simp
    show ?thesis
      unfolding pf_def plan_phase_frame[OF v j]
      using False n by (simp add: local_step_protocol loc_def)
  qed
  have wj: "write_data H (cp ! j) (pf ! j) =
      (fst (snd (wr j)),
       \<lparr>state_dict = call_state_dict (calls ! j),
        storage_writer = snd (snd (snd (wr j))),
        planner = fst (snd (snd (wr j))),
        global_metatadata = (if is_coordinator (\<not> nd) cr j then fst (snd (snd glob)) else None),
        trace = [E_set_up_planner (call_state_dict (calls ! j)) (is_coordinator (\<not> nd) cr j),
                 E_set_up_storage_writer (is_coordinator (\<not> nd) cr j),
                 E_create_local_plan, E_prepare_local_plan (fst (loc j))] @
                (if is_coordinator (\<not> nd) cr j
                 then [E_create_global_plan alp, E_prepare_global_plan (fst glob)] else []) @
                [E_finish_plan (fst (snd glob) ! j), E_write_data (fst (wr j)), E_wait, E_value]\<rparr>)"
    if j: "j < length calls" for j
    by (cases "is_coordinator (\<not> nd) cr j")
       (simp_all add: pfj[OF j] cpj[OF j] write_data_protocol wr_def)
  define rs where "rs = map (\<lambda>j. fst (snd (wr j))) [0..<length calls]"
  have rs': "map (\<lambda>j. fst (write_data H (cp ! j) (pf ! j))) [0..<length calls] = rs"
    unfolding rs_def by (rule map_cong) (simp_all add: wj)
  have pframe: "protocol_frame H calls cr nd i =
      \<lparr>state_dict = call_state_dict (calls ! i),
       storage_writer =
         (if is_coordinator (\<not> nd) cr i
          then (case fst (snd (snd glob)) of None \<Rightarrow> snd (snd (snd (wr i)))
                | Some m \<Rightarrow> sw_finish H m rs (snd (snd (snd (wr i)))))
          else snd (snd (snd (wr i)))),
       planner = fst (snd (snd (wr i))),
       global_metatadata = (if is_coordinator (\<not> nd) cr i then fst (snd (snd glob)) else None),
       trace =
         [E_set_up_planner (call_state_dict (calls ! i)) (is_coordinator (\<not> nd) cr i),
          E_set_up_storage_writer (is_coordinator (\<not> nd) cr i),
          E_create_local_plan, E_prepare_local_plan (fst (loc i))] @
         (if is_coordinator (\<not> nd) cr i
          then [E_create_global_plan alp, E_prepare_global_plan (fst glob)] else []) @
         [E_finish_plan (fst (snd glob) ! i), E_write_data (fst (wr i)), E_wait, E_value] @
         (if is_coordinator (\<not> nd) cr i
          then (case fst (snd (snd glob)) of None \<Rightarrow> [] | Some m \<Rightarrow> [E_finish m rs])
          else [])\<rparr>"
    unfolding protocol_frame_def Let_def rs_def wr_def glob_def alp_def loc_def by (rule refl)
  have "snd (priv_save_state_dict H calls cr nd) ! i =
     (if is_coordinator (\<not> nd) cr i
      then snd (finish_checkpoint H rs (snd (write_data H (cp ! i) (pf ! i))))
      else snd (write_data H (cp ! i) (pf ! i)))"
    unfolding write_phase_frame[OF cp assms(2)] pf_def[symmetric] rs' ic[OF assms(2)] by (rule refl)
  then show "snd (priv_save_state_dict H calls cr nd) ! i = protocol_frame H calls cr nd i"
    unfolding pframe wj[OF assms(2)] snd_conv finish_checkpoint_protocol
    by (cases "is_coordinator (\<not> nd) cr i") (simp_all split: option.splits)
  have g: "global_metatadata (pf ! coord_index (\<not> nd) cr) = fst (snd (snd glob))"
    using icc by (simp add: pfj[OF c])
  have "fst (priv_save_state_dict H calls cr nd) =
     (case fst (snd (snd glob)) of None \<Rightarrow> Inl (AssertionError [])
      | Some m \<Rightarrow> Inr (replicate (length calls) m))"
    unfolding write_phase_result[OF cp] pf_def[symmetric] g by (rule refl)
  then have "Some (ms ! i) = fst (snd (snd glob))"
    using assms by (auto split: option.splits)
  then show "Some (ms ! i) =
           fst (snd (snd (protocol_global H
             (map (\<lambda>j. fst (snd (protocol_local H (is_coordinator (\<not> nd) cr j) (calls ! j))))
                  [0..<length calls])
             (fst (snd (snd (protocol_local H True (calls ! coord_index (\<not> nd) cr)))))
             (snd (snd (snd (protocol_local H True (calls ! coord_index (\<not> nd) cr))))))))"
    by (simp add: glob_def alp_def loc_def locc[unfolded loc_def])
qed

text \<open>
  Claim C3. On every rank of every run, the hooks called are an initial part of the
  protocol order: \<^verbatim>\<open>set_up_planner\<close>, \<^verbatim>\<open>set_up_storage_writer\<close>, \<^verbatim>\<open>create_local_plan\<close>,
  \<^verbatim>\<open>prepare_local_plan\<close>; on the coordinator only \<^verbatim>\<open>create_global_plan\<close>,
  \<^verbatim>\<open>prepare_global_plan\<close>; then \<^verbatim>\<open>finish_plan\<close>, \<^verbatim>\<open>write_data\<close>, \<^verbatim>\<open>wait\<close>, \<^verbatim>\<open>value\<close>; on the
  coordinator only \<^verbatim>\<open>finish\<close>. In a run that returns they are exactly that order, and
  the rank ends with the frame the protocol of the spec leaves: planner and writer are
  what the hooks, called in that order, each on what the one before it left, make of
  them; \<^verbatim>\<open>finish_plan\<close> is called on the plan the rank was assigned, element \<open>i\<close> of the
  prepared global plan; \<^verbatim>\<open>write_data\<close> on the plan \<^verbatim>\<open>finish_plan\<close> returned; \<^verbatim>\<open>finish\<close>, on
  the coordinator only, on the returned metadata and the write results of all ranks in
  rank order.
\<close>

theorem hooks_in_protocol_order:
  assumes "i < length calls"
  shows "prefix (map hook_of (trace (snd (priv_save_state_dict H calls cr nd) ! i)))
           (protocol_order (is_coordinator (\<not> nd) cr i)) \<and>
    (\<forall>ms. fst (priv_save_state_dict H calls cr nd) = Inr ms \<longrightarrow>
       map hook_of (trace (snd (priv_save_state_dict H calls cr nd) ! i)) =
         protocol_order (is_coordinator (\<not> nd) cr i) \<and>
       snd (priv_save_state_dict H calls cr nd) ! i = protocol_frame H calls cr nd i \<and>
       (\<exists>cp. fst (plan_phase H calls cr nd) = Inr cp \<and>
          E_finish_plan (cp ! i) \<in> set (trace (snd (priv_save_state_dict H calls cr nd) ! i))) \<and>
       (is_coordinator (\<not> nd) cr i \<longrightarrow>
          (\<exists>rs. length rs = length calls \<and>
             E_finish (ms ! i) rs \<in> set (trace (snd (priv_save_state_dict H calls cr nd) ! i)))))"
proof -
  have "prefix (map hook_of (trace (snd (priv_save_state_dict H calls cr nd) ! i)))
           (protocol_order (is_coordinator (\<not> nd) cr i))"
  proof (cases "fst (plan_phase H calls cr nd)")
    case (Inl e)
    then show ?thesis using assms by (rule unplanned_hooks_prefix)
  next
    case (Inr cp)
    then show ?thesis using assms by (rule planned_hooks_prefix)
  qed
  then show ?thesis using returned_hooks[OF _ assms] returned_frame(1)[OF _ assms] by blast
qed

lemma stateful_to_state_dict_snd:
  "snd (priv_stateful_to_state_dict H sd p) =
     items_loop H (next_free p) (cells p sd) (p\<lparr>cells := (cells p)(next_free p := []), next_free := Suc (next_free p)\<rparr>)"
  by (simp add: priv_stateful_to_state_dict_def Let_def)

text \<open>
  Claim C8. \<^verbatim>\<open>_stateful_to_state_dict\<close> returns a new dict with the keys of its argument in
  the same order; a plain value is kept, a Stateful value is replaced by what a call of
  its \<^verbatim>\<open>state_dict()\<close> returned, and no value of the result is Stateful. No dict that
  existed is changed, the argument included, and an object the argument does not hold is
  unchanged. When \<^verbatim>\<open>state_dict()\<close> leaves its object as it was, no object is changed and
  each Stateful value is replaced by the snapshot of its object as it was at the call.
\<close>

theorem stateful_to_state_dict_resolves:
  assumes "sd < next_free p" and "distinct (map fst (cells p sd))"
    and "priv_stateful_to_state_dict H sd p = (r, p')"
  shows "r = next_free p \<and> r \<noteq> sd \<and>
    map fst (cells p' r) = map fst (cells p sd) \<and>
    (\<forall>k v. (k, Plain v) \<in> set (cells p sd) \<longrightarrow> (k, Plain v) \<in> set (cells p' r)) \<and>
    (\<forall>k a. (k, Stateful a) \<in> set (cells p sd) \<longrightarrow>
       (\<exists>ob. (k, Plain (fst (st_state_dict H ob))) \<in> set (cells p' r))) \<and>
    (\<forall>k e. (k, e) \<in> set (cells p' r) \<longrightarrow> (\<exists>v. e = Plain v)) \<and>
    (\<forall>b. b < next_free p \<longrightarrow> cells p' b = cells p b) \<and>
    (\<forall>b. (\<forall>k. (k, Stateful b) \<notin> set (cells p sd)) \<longrightarrow> objs p' b = objs p b) \<and>
    ((\<forall>ob. snd (st_state_dict H ob) = ob) \<longrightarrow>
       objs p' = objs p \<and>
       cells p' r = map (\<lambda>(k, e). (k, case e of Plain v \<Rightarrow> Plain v
                          | Stateful a \<Rightarrow> Plain (fst (st_state_dict H (objs p a))))) (cells p sd))"
proof -
  have r: "r = next_free p" using assms(3) stateful_to_state_dict_fst[of H sd p] by simp
  have p': "p' = snd (priv_stateful_to_state_dict H sd p)" using assms(3) by simp
  have cs: "cells p' = (cells p)(next_free p := resolved H (cells p sd) (objs p))"
    unfolding p' using assms(1,2) by (rule stateful_to_state_dict_cells)
  have cr: "cells p' r = resolved H (cells p sd) (objs p)" using cs r by simp
  have "r \<noteq> sd" using r assms(1) by simp
  moreover have "map fst (cells p' r) = map fst (cells p sd)" by (simp add: cr resolved_keys)
  moreover have "\<forall>k v. (k, Plain v) \<in> set (cells p sd) \<longrightarrow> (k, Plain v) \<in> set (cells p' r)"
    by (simp add: cr resolved_plain)
  moreover have "\<forall>k a. (k, Stateful a) \<in> set (cells p sd) \<longrightarrow>
       (\<exists>ob. (k, Plain (fst (st_state_dict H ob))) \<in> set (cells p' r))"
    unfolding cr using resolved_stateful by fast
  moreover have "\<forall>k e. (k, e) \<in> set (cells p' r) \<longrightarrow> (\<exists>v. e = Plain v)"
    unfolding cr using resolved_all_plain by fast
  moreover have "\<forall>b. b < next_free p \<longrightarrow> cells p' b = cells p b" by (simp add: cs)
  moreover have "\<forall>b. (\<forall>k. (k, Stateful b) \<notin> set (cells p sd)) \<longrightarrow> objs p' b = objs p b"
    by (simp add: p' stateful_to_state_dict_snd items_loop_objs_other)
  moreover have "(\<forall>ob. snd (st_state_dict H ob) = ob) \<longrightarrow>
       objs p' = objs p \<and>
       cells p' r = map (\<lambda>(k, e). (k, case e of Plain v \<Rightarrow> Plain v
                          | Stateful a \<Rightarrow> Plain (fst (st_state_dict H (objs p a))))) (cells p sd)"
  proof
    assume pure: "\<forall>ob. snd (st_state_dict H ob) = ob"
    have "objs p' = objs p"
      using pure by (simp add: p' stateful_to_state_dict_snd items_loop_objs_pure)
    moreover have "cells p' r = map (\<lambda>(k, e). (k, case e of Plain v \<Rightarrow> Plain v
                          | Stateful a \<Rightarrow> Plain (fst (st_state_dict H (objs p a))))) (cells p sd)"
      unfolding cr using pure by (rule resolved_pure)
    ultimately show "objs p' = objs p \<and>
       cells p' r = map (\<lambda>(k, e). (k, case e of Plain v \<Rightarrow> Plain v
                          | Stateful a \<Rightarrow> Plain (fst (st_state_dict H (objs p a))))) (cells p sd)"
      by simp
  qed
  ultimately show ?thesis using r by blast
qed

lemma toy_resolve:
  "priv_stateful_to_state_dict toy 0 (toy_proc [(''a'', Stateful 0), (''b'', Plain 5)]) =
     (1, snd (priv_stateful_to_state_dict toy 0 (toy_proc [(''a'', Stateful 0), (''b'', Plain 5)])))"
  by (simp add: priv_stateful_to_state_dict_def Let_def toy_proc_def)

text \<open>The spec's example: \<open>{a: statefulObj, b: 5}\<close> with an object that snapshots to 7.\<close>

theorem stateful_to_state_dict_resolves_witness:
  "0 < next_free (toy_proc [(''a'', Stateful 0), (''b'', Plain 5)]) \<and>
   distinct (map fst (cells (toy_proc [(''a'', Stateful 0), (''b'', Plain 5)]) 0)) \<and>
   (\<forall>ob. snd (st_state_dict toy ob) = ob) \<and>
   (''b'', Plain 5) \<in> set (cells (toy_proc [(''a'', Stateful 0), (''b'', Plain 5)]) 0) \<and>
   (''a'', Stateful 0) \<in> set (cells (toy_proc [(''a'', Stateful 0), (''b'', Plain 5)]) 0) \<and>
   fst (priv_stateful_to_state_dict toy 0 (toy_proc [(''a'', Stateful 0), (''b'', Plain 5)])) = 1 \<and>
   cells (snd (priv_stateful_to_state_dict toy 0 (toy_proc [(''a'', Stateful 0), (''b'', Plain 5)]))) 1 =
     [(''a'', Plain 7), (''b'', Plain 5)] \<and>
   cells (snd (priv_stateful_to_state_dict toy 0 (toy_proc [(''a'', Stateful 0), (''b'', Plain 5)]))) 0 =
     [(''a'', Stateful 0), (''b'', Plain 5)] \<and>
   objs (snd (priv_stateful_to_state_dict toy 0 (toy_proc [(''a'', Stateful 0), (''b'', Plain 5)]))) =
     objs (toy_proc [(''a'', Stateful 0), (''b'', Plain 5)])"
proof -
  have h1: "0 < next_free (toy_proc [(''a'', Stateful 0), (''b'', Plain 5)])"
    by (simp add: toy_proc_def)
  have h2: "distinct (map fst (cells (toy_proc [(''a'', Stateful 0), (''b'', Plain 5)]) 0))"
    by (simp add: toy_proc_def)
  have h3: "\<forall>ob. snd (st_state_dict toy ob) = ob" by (simp add: toy_def)
  note T = stateful_to_state_dict_resolves[OF h1 h2 toy_resolve]
  have c0: "cells (toy_proc [(''a'', Stateful 0), (''b'', Plain 5)]) 0 = [(''a'', Stateful 0), (''b'', Plain 5)]"
    by (simp add: toy_proc_def)
  have o0: "objs (toy_proc [(''a'', Stateful 0), (''b'', Plain 5)]) 0 = 7"
    by (simp add: toy_proc_def)
  have s7: "fst (st_state_dict toy 7) = 7" by (simp add: toy_def)
  from T h3 have "cells (snd (priv_stateful_to_state_dict toy 0 (toy_proc [(''a'', Stateful 0), (''b'', Plain 5)]))) 1 =
     map (\<lambda>(k, e). (k, case e of Plain v \<Rightarrow> Plain v
             | Stateful a \<Rightarrow> Plain (fst (st_state_dict toy (objs (toy_proc [(''a'', Stateful 0), (''b'', Plain 5)]) a)))))
         (cells (toy_proc [(''a'', Stateful 0), (''b'', Plain 5)]) 0)"
    by blast
  then have a: "cells (snd (priv_stateful_to_state_dict toy 0 (toy_proc [(''a'', Stateful 0), (''b'', Plain 5)]))) 1 =
     [(''a'', Plain 7), (''b'', Plain 5)]"
    by (simp add: c0 o0 s7)
  from T h1 have "cells (snd (priv_stateful_to_state_dict toy 0 (toy_proc [(''a'', Stateful 0), (''b'', Plain 5)]))) 0 =
      cells (toy_proc [(''a'', Stateful 0), (''b'', Plain 5)]) 0"
    by blast
  then have b: "cells (snd (priv_stateful_to_state_dict toy 0 (toy_proc [(''a'', Stateful 0), (''b'', Plain 5)]))) 0 =
     [(''a'', Stateful 0), (''b'', Plain 5)]"
    by (simp add: c0)
  from T h3 have c: "objs (snd (priv_stateful_to_state_dict toy 0 (toy_proc [(''a'', Stateful 0), (''b'', Plain 5)]))) =
     objs (toy_proc [(''a'', Stateful 0), (''b'', Plain 5)])"
    by blast
  have d: "fst (priv_stateful_to_state_dict toy 0 (toy_proc [(''a'', Stateful 0), (''b'', Plain 5)])) = 1"
    using toy_resolve by (metis fst_conv)
  show ?thesis using h1 h2 h3 a b c d by (simp add: c0)
qed

lemma toy_plan3:
  "fst (plan_phase toy [toy_call 1, toy_call 2, toy_call 3] 0 False) = Inr [1, 2, 3]"
  by (simp add: plan_phase_def reduce_scatter_def run_local_def local_step_def global_step_def
        enter_def emit_def is_coordinator_def toy_def toy_call_def toy_value_def Let_def)

lemma toy_plan3_comms:
  "snd (snd (plan_phase toy [toy_call 1, toy_call 2, toy_call 3] 0 False)) = [Gather, Scatter]"
  using toy_plan3 by (simp add: plan_phase_def reduce_scatter_comms)

lemma toy_run3:
  "fst (priv_save_state_dict toy [toy_call 1, toy_call 2, toy_call 3] 0 False) =
     Inr [(3, 6), (3, 6), (3, 6)]"
proof -
  have v: "valid_group (\<not> False) 0 (length [toy_call 1, toy_call 2, toy_call 3])"
    by (simp add: valid_group_def)
  have g: "global_metatadata (fst (snd (plan_phase toy [toy_call 1, toy_call 2, toy_call 3] 0 False)) !
          coord_index (\<not> False) 0) = Some (3, 6)"
    unfolding plan_phase_coordinator_metadata[OF v]
    by (simp add: local_step_def enter_def emit_def
          is_coordinator_def toy_def toy_call_def toy_value_def Let_def coord_index_def)
  show ?thesis unfolding write_phase_result[OF toy_plan3] g by simp
qed

lemma toy_run1:
  "fst (priv_save_state_dict toy [toy_call 1] 0 True) = Inr [(1, 1)]"
proof -
  have v: "valid_group (\<not> True) 0 (length [toy_call 1])"
    by (simp add: valid_group_def)
  have p: "fst (plan_phase toy [toy_call 1] 0 True) = Inr [1]"
    by (simp add: plan_phase_def reduce_scatter_def run_local_def local_step_def global_step_def
        enter_def emit_def is_coordinator_def toy_def toy_call_def toy_value_def Let_def)
  have g: "global_metatadata (fst (snd (plan_phase toy [toy_call 1] 0 True)) !
          coord_index (\<not> True) 0) = Some (1, 1)"
    unfolding plan_phase_coordinator_metadata[OF v]
    by (simp add: local_step_def enter_def emit_def
          is_coordinator_def toy_def toy_call_def toy_value_def Let_def coord_index_def)
  show ?thesis unfolding write_phase_result[OF p] g by simp
qed

text \<open>Three ranks with local plans 1, 2, 3 and coordinator 0 (spec, section 8).\<close>

theorem all_ranks_same_metadata_witness:
  "fst (priv_save_state_dict toy [toy_call 1, toy_call 2, toy_call 3] 0 False) =
     Inr [(3, 6), (3, 6), (3, 6)] \<and>
   global_metatadata (snd (priv_save_state_dict toy [toy_call 1, toy_call 2, toy_call 3] 0 False) ! 0) =
     Some (3, 6)"
proof -
  have run: "priv_save_state_dict toy [toy_call 1, toy_call 2, toy_call 3] 0 False =
     (Inr [(3, 6), (3, 6), (3, 6)],
      snd (priv_save_state_dict toy [toy_call 1, toy_call 2, toy_call 3] 0 False))"
    using toy_run3 by (simp add: prod_eq_iff)
  from all_ranks_same_metadata[OF run]
  obtain m where m: "\<forall>i<length [toy_call 1, toy_call 2, toy_call 3]. [(3, 6), (3, 6), (3::nat, 6::nat)] ! i = m"
      and g: "global_metatadata (snd (priv_save_state_dict toy [toy_call 1, toy_call 2, toy_call 3] 0 False) !
                coord_index (\<not> False) 0) = Some m"
    by blast
  from m have "m = (3, 6)" by auto
  then show ?thesis using g toy_run3 by (simp add: coord_index_def)
qed

theorem central_plan_index_fidelity_witness:
  "fst (plan_phase toy [toy_call 1, toy_call 2, toy_call 3] 0 False) = Inr [1, 2, 3] \<and>
   length [1, 2, 3 :: nat] = length [toy_call 1, toy_call 2, toy_call 3] \<and>
   snd (snd (plan_phase toy [toy_call 1, toy_call 2, toy_call 3] 0 False)) = [Gather, Scatter]"
proof -
  have run: "plan_phase toy [toy_call 1, toy_call 2, toy_call 3] 0 False =
     (Inr [1, 2, 3], fst (snd (plan_phase toy [toy_call 1, toy_call 2, toy_call 3] 0 False)),
      snd (snd (plan_phase toy [toy_call 1, toy_call 2, toy_call 3] 0 False)))"
    using toy_plan3 by (simp add: prod_eq_iff)
  show ?thesis using central_plan_index_fidelity[OF run] toy_plan3 by simp
qed

lemma toy_frame3:
  "protocol_frame toy [toy_call 1, toy_call 2, toy_call 3] 0 False 0 =
     \<lparr>state_dict = [(''x'', Plain 1)], storage_writer = (False, 4), planner = 1,
      global_metatadata = Some (3, 6),
      trace = [E_set_up_planner [(''x'', Plain 1)] True, E_set_up_storage_writer True,
               E_create_local_plan, E_prepare_local_plan 1,
               E_create_global_plan [1, 2, 3], E_prepare_global_plan [1, 2, 3],
               E_finish_plan 1, E_write_data 1, E_wait, E_value, E_finish (3, 6) [1, 2, 3]]\<rparr>"
  by (simp add: protocol_frame_def protocol_local_def protocol_global_def protocol_write_def
        is_coordinator_def coord_index_def toy_def toy_call_def toy_value_def Let_def)

theorem hooks_in_protocol_order_witness:
  "(0::nat) < length [toy_call 1, toy_call 2, toy_call 3] \<and>
   fst (priv_save_state_dict toy [toy_call 1, toy_call 2, toy_call 3] 0 False) =
     Inr [(3, 6), (3, 6), (3, 6)] \<and>
   is_coordinator (\<not> False) 0 0 \<and>
   map hook_of (trace (snd (priv_save_state_dict toy [toy_call 1, toy_call 2, toy_call 3] 0 False) ! 0)) =
     [H_set_up_planner, H_set_up_storage_writer, H_create_local_plan, H_prepare_local_plan,
      H_create_global_plan, H_prepare_global_plan,
      H_finish_plan, H_write_data, H_wait, H_value, H_finish] \<and>
   snd (priv_save_state_dict toy [toy_call 1, toy_call 2, toy_call 3] 0 False) ! 0 =
     \<lparr>state_dict = [(''x'', Plain 1)], storage_writer = (False, 4), planner = 1,
      global_metatadata = Some (3, 6),
      trace = [E_set_up_planner [(''x'', Plain 1)] True, E_set_up_storage_writer True,
               E_create_local_plan, E_prepare_local_plan 1,
               E_create_global_plan [1, 2, 3], E_prepare_global_plan [1, 2, 3],
               E_finish_plan 1, E_write_data 1, E_wait, E_value, E_finish (3, 6) [1, 2, 3]]\<rparr>"
proof -
  have i: "(0::nat) < length [toy_call 1, toy_call 2, toy_call 3]" by simp
  have c: "is_coordinator (\<not> False) 0 0" by (simp add: is_coordinator_def)
  note T = hooks_in_protocol_order[OF i, of toy 0 False]
  have h: "map hook_of (trace (snd (priv_save_state_dict toy [toy_call 1, toy_call 2, toy_call 3] 0 False) ! 0)) =
             protocol_order (is_coordinator (\<not> False) 0 0)"
    using T toy_run3 by blast
  have f: "snd (priv_save_state_dict toy [toy_call 1, toy_call 2, toy_call 3] 0 False) ! 0 =
             protocol_frame toy [toy_call 1, toy_call 2, toy_call 3] 0 False 0"
    using T toy_run3 by blast
  show ?thesis
    unfolding f toy_frame3 using h[unfolded f toy_frame3] toy_run3 i c
    by (simp add: protocol_order_def)
qed

theorem finish_checkpoint_assertion_holds_witness:
  "(\<forall>plans ps. snd (fst (pl_create_global_plan toy plans ps)) \<noteq> None) \<and>
   fst (plan_phase toy [toy_call 1, toy_call 2, toy_call 3] 0 False) = Inr [1, 2, 3] \<and>
   (\<exists>m. fst (priv_save_state_dict toy [toy_call 1, toy_call 2, toy_call 3] 0 False) =
          Inr (replicate (length [toy_call 1, toy_call 2, toy_call 3]) m)) \<and>
   fst (priv_save_state_dict toy [toy_call 1, toy_call 2, toy_call 3] 0 False) \<noteq> Inl (AssertionError [])"
proof -
  have h: "\<forall>plans ps. snd (fst (pl_create_global_plan toy plans ps)) \<noteq> None"
    by (simp add: toy_def)
  show ?thesis
    using finish_checkpoint_assertion_holds[OF h, of "[toy_call 1, toy_call 2, toy_call 3]" 0 False]
      h toy_plan3
    by blast
qed

subsection \<open>The entry points\<close>

lemma collect_Inr: "collect xs = Inr ys \<Longrightarrow> xs = map Inr ys"
proof (induction xs arbitrary: ys)
  case Nil
  then show ?case by simp
next
  case (Cons x xs)
  then show ?case by (cases x) (auto split: sum.splits)
qed


lemma collect_map_Inr: "collect (map Inr ys) = Inr ys"
  by (induction ys) auto


lemma run_entered_length: "length (snd (run_entered H entered cr nd)) = length entered"
proof (cases "collect entered")
  case (Inl e)
  then show ?thesis by (simp add: run_entered_def)
next
  case (Inr calls)
  have l: "length calls = length entered" using collect_Inr[OF Inr] by simp
  have "length (snd (priv_save_state_dict H calls cr nd)) = length calls"
  proof (cases "fst (plan_phase H calls cr nd)")
    case (Inl e)
    then show ?thesis by (simp add: save_state_dict_failed plan_phase_length)
  next
    case (Inr cp)
    have v: "valid_group (\<not> nd) cr (length (fst (snd (plan_phase H calls cr nd))))"
      using plan_phase_returns(1)[OF Inr] by (simp add: plan_phase_length)
    show ?thesis
      by (simp add: save_state_dict_planned[OF Inr] all_reduce_states[OF v] plan_phase_length)
  qed
  then show ?thesis using Inr l by (simp add: run_entered_def case_prod_beta)
qed

lemma run_entered_all:
  "run_entered H (map Inr calls) cr nd =
     (fst (priv_save_state_dict H calls cr nd), map Some (snd (priv_save_state_dict H calls cr nd)))"
  by (simp add: run_entered_def collect_map_Inr case_prod_beta)


lemma run_entered_waiting:
  assumes "j < length entered" and "entered ! j = Inr c" and "collect entered = Inl e"
  shows "snd (run_entered H entered cr nd) ! j =
           Some (if nd then enter H c
                 else snd (local_step H (is_coordinator (\<not> nd) cr j) (enter H c)))"
  using assms by (simp add: run_entered_def)






lemma save_single:
  assumes "\<not> dist_ready E"
    and "priv_storage_setup H (arg_storage_writer a) (arg_checkpoint_id a) = Inr w"
  shows "fst (save H E [(a, p)]) =
           fst (priv_save_state_dict H
                  [\<lparr>call_state_dict =
                      cells (snd (priv_stateful_to_state_dict H (arg_state_dict a)
                          (p\<lparr>log := log p @ [Warn ''torch.distributed is unavailable or uninitialized'']\<rparr>)))
                        (next_free p),
                    call_storage_writer = w, call_planner = arg_planner a\<rparr>] 0 True)"
    and "hd (snd (snd (save H E [(a, p)]))) =
           snd (priv_stateful_to_state_dict H (arg_state_dict a)
                  (p\<lparr>log := log p @ [Warn ''torch.distributed is unavailable or uninitialized'']\<rparr>))"
    and "length (fst (snd (save H E [(a, p)]))) = 1"
  using assms run_entered_length[of H "[fst (save_prologue H E a p)]" 0 True]
  by (simp_all add: save_def save_prologue_def Let_def stateful_to_state_dict_fst
        run_entered_def case_prod_beta)



lemma save_prologue_plain:
  assumes "arg_storage_writer a = Some w"
    and "arg_state_dict a < next_free p"
    and "distinct (map fst (cells p (arg_state_dict a)))"
    and "\<not> has_stateful (cells p (arg_state_dict a))"
  shows "fst (save_prologue H E a p) =
           Inr \<lparr>call_state_dict = cells p (arg_state_dict a), call_storage_writer = w,
                call_planner = arg_planner a\<rparr>"
proof -
  define p1 where "p1 = (if \<not> dist_ready E
     then p\<lparr>log := log p @ [Warn ''torch.distributed is unavailable or uninitialized'']\<rparr> else p)"
  have a: "arg_state_dict a < next_free p1" "distinct (map fst (cells p1 (arg_state_dict a)))"
    and c: "cells p1 = cells p" "objs p1 = objs p" "next_free p1 = next_free p"
    using assms by (simp_all add: p1_def)
  have "cells (snd (priv_stateful_to_state_dict H (arg_state_dict a) p1))
          (fst (priv_stateful_to_state_dict H (arg_state_dict a) p1)) =
        cells p (arg_state_dict a)"
    using assms(4)
    by (simp add: stateful_to_state_dict_cells[OF a] stateful_to_state_dict_fst c resolved_no_stateful)
  then show ?thesis
    using assms(1)
    by (simp add: save_prologue_def priv_storage_setup_def Let_def case_prod_beta p1_def)
qed

lemma save_state_dict_prologue_call:
  assumes "arg_storage_writer a = Some w"
  shows "fst (save_state_dict_prologue H a p) =
           Inr \<lparr>call_state_dict = cells p (arg_state_dict a), call_storage_writer = sw_reset H w,
                call_planner = arg_planner a\<rparr>"
  using assms by (simp add: save_state_dict_prologue_def Let_def)

subsection \<open>The concrete planner and writer at the entry points\<close>

lemma toy_single:
  "fst (priv_save_state_dict toy [c] cr True) =
     Inr [(1, sum_list (map (\<lambda>kv. toy_value (snd kv)) (call_state_dict c)))]"
proof -
  have v: "valid_group (\<not> True) cr (length [c])" by (simp add: valid_group_def)
  have "\<exists>cp. fst (plan_phase toy [c] cr True) = Inr cp"
    unfolding plan_phase_result[OF v] global_step_result by (simp add: toy_def)
  then obtain cp where cp: "fst (plan_phase toy [c] cr True) = Inr cp" by blast
  have g: "global_metatadata (fst (snd (plan_phase toy [c] cr True)) ! coord_index (\<not> True) cr) =
             Some (1, sum_list (map (\<lambda>kv. toy_value (snd kv)) (call_state_dict c)))"
    unfolding plan_phase_coordinator_metadata[OF v]
    by (simp add: local_step_def enter_def emit_def is_coordinator_def toy_def Let_def coord_index_def)
  show ?thesis unfolding write_phase_result[OF cp] g by simp
qed


lemma toy_save_single:
  assumes "sd < next_free p" and "distinct (map fst (cells p sd))"
  shows "fst (save toy (toy_env False) [((toy_args (Some w))\<lparr>arg_state_dict := sd\<rparr>, p)]) =
           Inr [(1, sum_list (map (\<lambda>kv. toy_value (snd kv)) (resolved toy (cells p sd) (objs p))))]"
proof -
  let ?a = "(toy_args (Some w))\<lparr>arg_state_dict := sd\<rparr>"
  let ?p1 = "p\<lparr>log := log p @ [Warn ''torch.distributed is unavailable or uninitialized'']\<rparr>"
  have nd: "\<not> dist_ready (toy_env False)" by (simp add: toy_env_def)
  have s: "priv_storage_setup toy (arg_storage_writer ?a) (arg_checkpoint_id ?a) = Inr w"
    by (simp add: priv_storage_setup_def toy_args_def)
  have a: "sd < next_free ?p1" "distinct (map fst (cells ?p1 sd))"
    using assms by simp_all
  show ?thesis
    unfolding save_single(1)[OF nd s] toy_single
    by (simp add: stateful_to_state_dict_cells[OF a])
qed

lemma toy_reset_first:
  "reset_first toy [(toy_args (Some (False, 0)), p)] = [(toy_args (Some (False, 0)), p)]"
  by (simp add: reset_first_def toy_def toy_args_def)

lemma toy_args_sd: "(toy_args w)\<lparr>arg_state_dict := 0\<rparr> = toy_args w"
  by (simp add: toy_args_def)

lemma toy_save_plain:
  "fst (save toy (toy_env False) [(toy_args (Some (False, 0)), toy_proc [(''x'', Plain 1)])]) = Inr [(1, 1)]"
  using toy_save_single[of 0 "toy_proc [(''x'', Plain 1)]" "(False, 0)"]
  by (simp add: toy_args_sd toy_proc_def toy_value_def)

lemma toy_save_stateful:
  "fst (save toy (toy_env False) [(toy_args (Some (False, 0)), toy_proc toy_stateful_dict)]) = Inr [(1, 12)]"
  using toy_save_single[of 0 "toy_proc toy_stateful_dict" "(False, 0)"]
  by (simp add: toy_args_sd toy_proc_def toy_value_def toy_stateful_dict_def toy_def)

lemma toy_save_state_dict_single:
  "fst (save_state_dict toy [(toy_args (Some (False, 0)), toy_proc d)] 0 True) =
     Inr [(1, sum_list (map (\<lambda>kv. toy_value (snd kv)) d))]"
proof -
  have "fst (save_state_dict toy [(toy_args (Some (False, 0)), toy_proc d)] 0 True) =
        fst (priv_save_state_dict toy
          [\<lparr>call_state_dict = d, call_storage_writer = (False, 0), call_planner = None\<rparr>] 0 True)"
    by (simp add: save_state_dict_def save_state_dict_prologue_def Let_def toy_args_def
          toy_proc_def toy_def run_entered_def case_prod_beta)
  then show ?thesis by (simp add: toy_single)
qed




lemma toy_async_stager:
  "fst (async_save toy (toy_env False) (toy_async_args (Some 1)) None (toy_proc toy_stateful_dict)) =
     Inr (Future ((toy_async_args (Some 1))\<lparr>arg_state_dict := 1\<rparr>))"
  "next_free (snd (async_save toy (toy_env False) (toy_async_args (Some 1)) None
     (toy_proc toy_stateful_dict))) = 2"
  "cells (snd (async_save toy (toy_env False) (toy_async_args (Some 1)) None
     (toy_proc toy_stateful_dict))) 1 = [(''a'', Stateful 0), (''b'', Plain 5)]"
  "writers (snd (async_save toy (toy_env False) (toy_async_args (Some 1)) None
     (toy_proc toy_stateful_dict))) 1 = (True, 0)"
  by (simp_all add: async_save_def stage_state_def isinstance_AsyncStager_def alloc_def
        toy_def toy_env_def toy_async_args_def toy_proc_def toy_stateful_dict_def Let_def)

lemma toy_async_offload:
  "fst (async_save toy (toy_env False) (toy_async_args (Some 0)) None (toy_proc toy_stateful_dict)) =
     Inr (Future ((toy_async_args (Some 0))\<lparr>arg_state_dict := 2\<rparr>))"
  "next_free (snd (async_save toy (toy_env False) (toy_async_args (Some 0)) None
     (toy_proc toy_stateful_dict))) = 3"
  "cells (snd (async_save toy (toy_env False) (toy_async_args (Some 0)) None
     (toy_proc toy_stateful_dict))) 2 = [(''a'', Plain 7), (''b'', Plain 5)]"
  "writers (snd (async_save toy (toy_env False) (toy_async_args (Some 0)) None
     (toy_proc toy_stateful_dict))) 0 = (False, 0)"
  by (simp_all add: async_save_def stage_state_def isinstance_AsyncStager_def alloc_def
        priv_stateful_to_state_dict_def
        toy_def toy_env_def toy_async_args_def toy_proc_def toy_stateful_dict_def Let_def)

lemma toy_spec_stage:
  "fst (spec_stage toy (toy_async_args (Some 1)) (toy_proc toy_stateful_dict)) = 2"
  "next_free (snd (spec_stage toy (toy_async_args (Some 1)) (toy_proc toy_stateful_dict))) = 3"
  "cells (snd (spec_stage toy (toy_async_args (Some 1)) (toy_proc toy_stateful_dict))) 2 =
     [(''a'', Plain 7), (''b'', Plain 5)]"
  "writers (snd (spec_stage toy (toy_async_args (Some 1)) (toy_proc toy_stateful_dict))) 1 = (True, 0)"
  by (simp_all add: spec_stage_def isinstance_AsyncStager_def alloc_def priv_stateful_to_state_dict_def
        toy_def toy_async_args_def toy_proc_def toy_stateful_dict_def Let_def)

lemma toy_deref:
  "deref p ((toy_async_args (Some wa))\<lparr>arg_state_dict := sd\<rparr>) =
     (toy_args (Some (writers p wa)))\<lparr>arg_state_dict := sd\<rparr>"
  by (simp add: deref_def toy_async_args_def toy_args_def)

lemma toy_future_result:
  assumes "sd < next_free W" and "distinct (map fst (cells W sd))"
  shows "fst (future_result toy (toy_env False) [Future ((toy_async_args (Some wa))\<lparr>arg_state_dict := sd\<rparr>)] [W]) =
           Inr [(1, sum_list (map (\<lambda>kv. toy_value (snd kv)) (resolved toy (cells W sd) (objs W))))]"
  using toy_save_single[OF assms, of "writers W wa"]
  by (simp add: future_result_def toy_deref)

lemma toy_save_of_staged:
  assumes "fst (spec_stage toy (toy_async_args (Some wa)) p) <
             next_free (snd (spec_stage toy (toy_async_args (Some wa)) p))"
    and "distinct (map fst (cells (snd (spec_stage toy (toy_async_args (Some wa)) p))
             (fst (spec_stage toy (toy_async_args (Some wa)) p))))"
  shows "fst (save_of_staged toy (toy_env False) [(toy_async_args (Some wa), p)]) =
           Inr [(1, sum_list (map (\<lambda>kv. toy_value (snd kv))
                  (resolved toy (cells (snd (spec_stage toy (toy_async_args (Some wa)) p))
                                   (fst (spec_stage toy (toy_async_args (Some wa)) p)))
                     (objs (snd (spec_stage toy (toy_async_args (Some wa)) p))))))]"
  using toy_save_single[OF assms, of "writers (snd (spec_stage toy (toy_async_args (Some wa)) p)) wa"]
  by (simp add: save_of_staged_def toy_deref case_prod_beta)

lemma toy_async_stager_later:
  "next_free ((snd (async_save toy (toy_env False) (toy_async_args (Some 1)) None
     (toy_proc toy_stateful_dict)))\<lparr>objs := f\<rparr>) = 2"
  "cells ((snd (async_save toy (toy_env False) (toy_async_args (Some 1)) None
     (toy_proc toy_stateful_dict)))\<lparr>objs := f\<rparr>) 1 = [(''a'', Stateful 0), (''b'', Plain 5)]"
  "objs ((snd (async_save toy (toy_env False) (toy_async_args (Some 1)) None
     (toy_proc toy_stateful_dict)))\<lparr>objs := f\<rparr>) = f"
  by (simp_all add: async_save_def stage_state_def isinstance_AsyncStager_def alloc_def
        toy_def toy_env_def toy_async_args_def toy_proc_def toy_stateful_dict_def Let_def)

lemma toy_async_offload_later:
  "next_free ((snd (async_save toy (toy_env False) (toy_async_args (Some 0)) None
     (toy_proc toy_stateful_dict)))\<lparr>objs := f\<rparr>) = 3"
  "cells ((snd (async_save toy (toy_env False) (toy_async_args (Some 0)) None
     (toy_proc toy_stateful_dict)))\<lparr>objs := f\<rparr>) 2 = [(''a'', Plain 7), (''b'', Plain 5)]"
  "objs ((snd (async_save toy (toy_env False) (toy_async_args (Some 0)) None
     (toy_proc toy_stateful_dict)))\<lparr>objs := f\<rparr>) = f"
  by (simp_all add: async_save_def stage_state_def isinstance_AsyncStager_def alloc_def
        priv_stateful_to_state_dict_def
        toy_def toy_env_def toy_async_args_def toy_proc_def toy_stateful_dict_def Let_def)

subsection \<open>Synchronous save\<close>



subsection \<open>The deprecated entry point\<close>

text \<open>
  Claim C9, as stated, fails. \<^verbatim>\<open>save_state_dict\<close> hands the state dict to \<^verbatim>\<open>_save_state_dict\<close>
  as it is, \<^verbatim>\<open>save\<close> resolves the Stateful objects first: on a state that holds one, the
  planner is set up with different states and the two return different metadata.
\<close>

theorem save_state_dict_differs_from_save_on_stateful_state:
  "fst (save_state_dict toy [(toy_args (Some (False, 0)), toy_proc toy_stateful_dict)] 0
          (\<not> dist_ready (toy_env False))) = Inr [(1, 1005)] \<and>
   fst (save toy (toy_env False)
          (reset_first toy [(toy_args (Some (False, 0)), toy_proc toy_stateful_dict)])) = Inr [(1, 12)] \<and>
   fst (save_state_dict toy [(toy_args (Some (False, 0)), toy_proc toy_stateful_dict)] 0
          (\<not> dist_ready (toy_env False))) \<noteq>
   fst (save toy (toy_env False)
          (reset_first toy [(toy_args (Some (False, 0)), toy_proc toy_stateful_dict)]))"
proof -
  have nd: "(\<not> dist_ready (toy_env False)) = True" by (simp add: toy_env_def)
  show ?thesis
    unfolding nd toy_reset_first toy_save_stateful toy_save_state_dict_single
    by (simp add: toy_stateful_dict_def toy_value_def)
qed

text \<open>
  Claim C9, amended. On state dicts that hold no Stateful object, with a writer given on
  every rank, \<^verbatim>\<open>save_state_dict\<close> with coordinator rank 0 and \<^verbatim>\<open>no_dist\<close> set exactly when no
  group is initialised returns what \<^verbatim>\<open>save\<close> returns when given the writer reset, and runs
  the same steps on every rank.
\<close>

theorem save_state_dict_agrees_with_save_on_plain_state:
  assumes "\<forall>(a, p) \<in> set inputs.
             arg_storage_writer a \<noteq> None \<and> arg_state_dict a < next_free p \<and>
             distinct (map fst (cells p (arg_state_dict a))) \<and>
             \<not> has_stateful (cells p (arg_state_dict a))"
  shows "fst (save_state_dict H inputs 0 (\<not> dist_ready E)) = fst (save H E (reset_first H inputs)) \<and>
         fst (snd (save_state_dict H inputs 0 (\<not> dist_ready E))) =
           fst (snd (save H E (reset_first H inputs)))"
proof -
  have "map fst (map (\<lambda>(a, p). save_state_dict_prologue H a p) inputs) =
        map fst (map (\<lambda>(a, p). save_prologue H E a p) (reset_first H inputs))"
    unfolding reset_first_def map_map
  proof (rule map_cong[OF refl])
    fix x assume x: "x \<in> set inputs"
    obtain a p where ap: "x = (a, p)" by (cases x)
    from assms x ap obtain w where w: "arg_storage_writer a = Some w"
      and r: "arg_state_dict a < next_free p" "distinct (map fst (cells p (arg_state_dict a)))"
        "\<not> has_stateful (cells p (arg_state_dict a))"
      by fastforce
    let ?a = "a\<lparr>arg_storage_writer := map_option (sw_reset H) (arg_storage_writer a)\<rparr>"
    have "fst (save_prologue H E ?a p) =
            Inr \<lparr>call_state_dict = cells p (arg_state_dict ?a), call_storage_writer = sw_reset H w,
                 call_planner = arg_planner ?a\<rparr>"
      by (rule save_prologue_plain) (use w r in simp_all)
    then show "(fst \<circ> (\<lambda>(a, p). save_state_dict_prologue H a p)) x =
          (fst \<circ> ((\<lambda>(a, p). save_prologue H E a p) \<circ>
             (\<lambda>(a, p). (a\<lparr>arg_storage_writer := map_option (sw_reset H) (arg_storage_writer a)\<rparr>, p)))) x"
      by (simp add: ap save_state_dict_prologue_call[OF w])
  qed
  then show ?thesis
    by (simp add: save_state_dict_def save_def Let_def case_prod_beta)
qed

theorem save_state_dict_agrees_with_save_on_plain_state_witness:
  "(\<not> has_stateful (cells (toy_proc [(''x'', Plain 1)]) (arg_state_dict (toy_args (Some (False, 0)))))) \<and>
   fst (save_state_dict toy [(toy_args (Some (False, 0)), toy_proc [(''x'', Plain 1)])] 0
          (\<not> dist_ready (toy_env False))) =
     fst (save toy (toy_env False)
          (reset_first toy [(toy_args (Some (False, 0)), toy_proc [(''x'', Plain 1)])])) \<and>
   fst (snd (save_state_dict toy [(toy_args (Some (False, 0)), toy_proc [(''x'', Plain 1)])] 0
          (\<not> dist_ready (toy_env False)))) =
     fst (snd (save toy (toy_env False)
          (reset_first toy [(toy_args (Some (False, 0)), toy_proc [(''x'', Plain 1)])]))) \<and>
   fst (save toy (toy_env False)
          (reset_first toy [(toy_args (Some (False, 0)), toy_proc [(''x'', Plain 1)])])) = Inr [(1, 1)]"
proof -
  have h: "\<forall>(a, p) \<in> set [(toy_args (Some (False, 0)), toy_proc [(''x'', Plain (1::nat))])].
             arg_storage_writer a \<noteq> None \<and> arg_state_dict a < next_free p \<and>
             distinct (map fst (cells p (arg_state_dict a))) \<and>
             \<not> has_stateful (cells p (arg_state_dict a))"
    by (auto simp: toy_args_def toy_proc_def)
  have n: "\<not> has_stateful (cells (toy_proc [(''x'', Plain (1::nat))])
             (arg_state_dict (toy_args (Some (False, 0)))))"
    by (simp add: toy_args_def toy_proc_def)
  have v: "fst (save toy (toy_env False)
          (reset_first toy [(toy_args (Some (False, 0)), toy_proc [(''x'', Plain 1)])])) = Inr [(1, 1)]"
    unfolding toy_reset_first by (rule toy_save_plain)
  show ?thesis
    using save_state_dict_agrees_with_save_on_plain_state[OF h, of toy "toy_env False"] n v
    by blast
qed

subsection \<open>Asynchronous save\<close>

text \<open>
  Claim C6. When a process group is initialised and the group of the call (the one given,
  else the default one) has no CPU device type, \<^verbatim>\<open>async_save\<close> raises the AssertionError
  that names the CPU backend requirement and leaves the process as it found it: nothing is
  resolved, staged, offloaded or submitted, and no collective is entered.
\<close>

theorem async_save_requires_cpu_backend:
  assumes "dist_ready E"
    and "CPU \<notin> set (device_types (case arg_process_group a of None \<Rightarrow> default_group E | Some pg \<Rightarrow> pg))"
  shows "async_save H E a ex p =
           (Inl (AssertionError ''A CPU backend must be enabled for async save''), p)"
  using assms by (simp add: async_save_def)

theorem async_save_requires_cpu_backend_witness:
  "dist_ready (toy_env True) \<and>
   CPU \<notin> set (device_types (case arg_process_group (toy_async_args None) of
                   None \<Rightarrow> default_group (toy_env True) | Some pg \<Rightarrow> pg)) \<and>
   async_save toy (toy_env True) (toy_async_args None) None (toy_proc [(''x'', Plain 1)]) =
     (Inl (AssertionError ''A CPU backend must be enabled for async save''), toy_proc [(''x'', Plain 1)])"
proof -
  have r: "dist_ready (toy_env True)" by (simp add: toy_env_def)
  have c: "CPU \<notin> set (device_types (case arg_process_group (toy_async_args None) of
                   None \<Rightarrow> default_group (toy_env True) | Some pg \<Rightarrow> pg))"
    by (simp add: toy_env_def toy_async_args_def)
  show ?thesis using async_save_requires_cpu_backend[OF r c] r c by simp
qed

text \<open>
  Claim C7. With a writer that implements \<^verbatim>\<open>AsyncStager\<close>, \<^verbatim>\<open>async_save\<close> hands \<^verbatim>\<open>stage\<close> the state
  dict as the caller gave it, the Stateful object still in it and never snapshotted; with
  any other writer the object is snapshotted first and the offload gets its snapshot.
  The writer at address 1 is a stager, the one at address 0 is not.
\<close>

theorem async_save_stager_stages_unresolved_state:
  "log (snd (async_save toy (toy_env False) (toy_async_args (Some 1)) None (toy_proc toy_stateful_dict))) =
     [Stage [(''a'', Stateful 0), (''b'', Plain 5)], Submit (ThreadPoolExecutor 1), AddDoneCallback,
      Synchronize] \<and>
   has_stateful [(''a'', Stateful 0), (''b'', Plain (5::nat))] \<and>
   log (snd (async_save toy (toy_env False) (toy_async_args (Some 0)) None (toy_proc toy_stateful_dict))) =
     [Snapshot 0, Offload [(''a'', Plain 7), (''b'', Plain 5)], Submit (ThreadPoolExecutor 1),
      AddDoneCallback]"
proof (intro conjI)
  show "log (snd (async_save toy (toy_env False) (toy_async_args (Some 1)) None
          (toy_proc toy_stateful_dict))) =
     [Stage [(''a'', Stateful 0), (''b'', Plain 5)], Submit (ThreadPoolExecutor 1), AddDoneCallback,
      Synchronize]"
    by (simp add: async_save_def stage_state_def isinstance_AsyncStager_def alloc_def
          toy_def toy_env_def toy_async_args_def toy_proc_def toy_stateful_dict_def Let_def)
  show "has_stateful [(''a'', Stateful 0), (''b'', Plain (5::nat))]" by simp
  show "log (snd (async_save toy (toy_env False) (toy_async_args (Some 0)) None
          (toy_proc toy_stateful_dict))) =
     [Snapshot 0, Offload [(''a'', Plain 7), (''b'', Plain 5)], Submit (ThreadPoolExecutor 1),
      AddDoneCallback]"
    by (simp add: async_save_def stage_state_def isinstance_AsyncStager_def alloc_def
          priv_stateful_to_state_dict_def
          toy_def toy_env_def toy_async_args_def toy_proc_def toy_stateful_dict_def Let_def)
qed

lemma items_loop_writers: "writers (items_loop H r items p) = writers p"
proof (induction items arbitrary: p)
  case Nil
  show ?case by simp
next
  case (Cons x xs)
  obtain k e where x: "x = (k, e)" by (cases x)
  show ?case using Cons x by (cases e) (simp_all add: Let_def split: prod.splits)
qed

lemma stateful_to_state_dict_writers:
  "writers (snd (priv_stateful_to_state_dict H sd p)) = writers p"
  by (simp add: priv_stateful_to_state_dict_def Let_def items_loop_writers)

lemma stateful_to_state_dict_next_free:
  "next_free (snd (priv_stateful_to_state_dict H sd p)) = Suc (next_free p)"
  by (simp add: priv_stateful_to_state_dict_def Let_def items_loop_next_free)

lemma resolved_has_no_stateful: "\<not> has_stateful (resolved H items os)"
proof (induction items arbitrary: os)
  case Nil
  show ?case by simp
next
  case (Cons x xs)
  obtain k e where x: "x = (k, e)" by (cases x)
  show ?case using Cons x by (cases e) simp_all
qed

lemma save_single_plain:
  assumes "arg_state_dict a < next_free p"
    and "distinct (map fst (cells p (arg_state_dict a)))"
    and "\<not> has_stateful (cells p (arg_state_dict a))"
  shows "fst (save H E [(a, p)]) =
     (case priv_storage_setup H (arg_storage_writer a) (arg_checkpoint_id a) of
        Inl e \<Rightarrow> Inl e
      | Inr w \<Rightarrow>
          fst (priv_save_state_dict H
                 [\<lparr>call_state_dict = cells p (arg_state_dict a), call_storage_writer = w,
                   call_planner = arg_planner a\<rparr>] 0 (\<not> dist_ready E)))"
proof -
  define p1 where "p1 = (if \<not> dist_ready E
     then p\<lparr>log := log p @ [Warn ''torch.distributed is unavailable or uninitialized'']\<rparr> else p)"
  have a: "arg_state_dict a < next_free p1" "distinct (map fst (cells p1 (arg_state_dict a)))"
    and c: "cells p1 = cells p" "objs p1 = objs p" "next_free p1 = next_free p"
    using assms by (simp_all add: p1_def)
  have r: "cells (snd (priv_stateful_to_state_dict H (arg_state_dict a) p1))
          (fst (priv_stateful_to_state_dict H (arg_state_dict a) p1)) =
        cells p (arg_state_dict a)"
    using assms(3)
    by (simp add: stateful_to_state_dict_cells[OF a] stateful_to_state_dict_fst c resolved_no_stateful)
  have pr: "fst (save_prologue H E a p) =
     (case priv_storage_setup H (arg_storage_writer a) (arg_checkpoint_id a) of
        Inl e \<Rightarrow> Inl e
      | Inr w \<Rightarrow> Inr \<lparr>call_state_dict = cells p (arg_state_dict a), call_storage_writer = w,
                      call_planner = arg_planner a\<rparr>)"
    using r unfolding p1_def
    by (cases "dist_ready E") (simp_all add: save_prologue_def Let_def case_prod_beta split: sum.splits)
  show ?thesis
    by (simp add: save_def Let_def case_prod_beta pr run_entered_def split: sum.splits)
qed

lemma stage_state_without_stager:
  assumes "\<not> isinstance_AsyncStager H p (arg_storage_writer a)"
    and "arg_state_dict a < next_free p" and "distinct (map fst (cells p (arg_state_dict a)))"
  shows "fst (stage_state H a p) = Suc (next_free p)"
    and "next_free (snd (stage_state H a p)) = Suc (Suc (next_free p))"
    and "cells (snd (stage_state H a p)) (Suc (next_free p)) =
           offload_state_dict_to_cpu H (resolved H (cells p (arg_state_dict a)) (objs p))"
    and "writers (snd (stage_state H a p)) = writers p"
  using assms
  by (simp_all add: stage_state_def alloc_def Let_def case_prod_beta stateful_to_state_dict_fst
        stateful_to_state_dict_next_free stateful_to_state_dict_cells stateful_to_state_dict_writers)

lemma spec_stage_without_stager:
  assumes "\<not> isinstance_AsyncStager H p (arg_storage_writer a)"
    and "arg_state_dict a < next_free p" and "distinct (map fst (cells p (arg_state_dict a)))"
  shows "fst (spec_stage H a p) = Suc (next_free p)"
    and "next_free (snd (spec_stage H a p)) = Suc (Suc (next_free p))"
    and "cells (snd (spec_stage H a p)) (Suc (next_free p)) =
           offload_state_dict_to_cpu H (resolved H (cells p (arg_state_dict a)) (objs p))"
    and "writers (snd (spec_stage H a p)) = writers p"
proof -
  have n: "\<not> isinstance_AsyncStager H (snd (priv_stateful_to_state_dict H (arg_state_dict a) p))
             (arg_storage_writer a)"
    using assms(1)
    by (simp add: isinstance_AsyncStager_def stateful_to_state_dict_writers split: option.splits)
  show "fst (spec_stage H a p) = Suc (next_free p)"
    and "next_free (snd (spec_stage H a p)) = Suc (Suc (next_free p))"
    and "cells (snd (spec_stage H a p)) (Suc (next_free p)) =
           offload_state_dict_to_cpu H (resolved H (cells p (arg_state_dict a)) (objs p))"
    and "writers (snd (spec_stage H a p)) = writers p"
    using n assms(2,3)
    by (simp_all add: spec_stage_def alloc_def Let_def case_prod_beta stateful_to_state_dict_fst
        stateful_to_state_dict_next_free stateful_to_state_dict_cells stateful_to_state_dict_writers)
qed

lemma async_save_without_stager:
  assumes "\<not> isinstance_AsyncStager H p (arg_storage_writer a)"
    and "fst (async_save H E a ex p) = Inr fut"
  shows "task fut = a\<lparr>arg_state_dict := fst (stage_state H a p)\<rparr>"
    and "cells (snd (async_save H E a ex p)) = cells (snd (stage_state H a p))"
proof -
  have w: "writers (snd (stage_state H a p)) = writers p"
    using assms(1)
    by (simp add: stage_state_def alloc_def Let_def case_prod_beta stateful_to_state_dict_writers)
  have n: "\<not> isinstance_AsyncStager H
             ((snd (stage_state H a p))\<lparr>log := log (snd (stage_state H a p)) @
                [Submit (case ex of None \<Rightarrow> ThreadPoolExecutor 1 | Some e \<Rightarrow> e), AddDoneCallback]\<rparr>)
             (arg_storage_writer a)"
    using assms(1) w by (simp add: isinstance_AsyncStager_def split: option.splits)
  show "task fut = a\<lparr>arg_state_dict := fst (stage_state H a p)\<rparr>"
    using assms(2) n by (auto simp: async_save_def Let_def case_prod_beta split: if_splits)
  show "cells (snd (async_save H E a ex p)) = cells (snd (stage_state H a p))"
    using assms(2) n by (auto simp: async_save_def Let_def case_prod_beta split: if_splits)
qed

text \<open>
  With a writer that is no stager the handle is as the spec has it. The state is resolved
  and offloaded at the call; the task works on the offloaded dict, which holds no Stateful
  object when the offload of a plain dict is plain. So if that dict and the writer are
  untouched when the task runs, the handle carries what the synchronous save of the state
  resolved and staged at the call returns, whatever has become of the caller's dict and
  of its Stateful objects.
\<close>

lemma async_handle_is_save_of_staged_without_stager:
  assumes ns: "\<not> isinstance_AsyncStager H p (arg_storage_writer a)"
    and fut: "fst (async_save H E a ex p) = Inr fut"
    and sd: "arg_state_dict a < next_free p" "distinct (map fst (cells p (arg_state_dict a)))"
    and off: "distinct (map fst (offload_state_dict_to_cpu H
                 (resolved H (cells p (arg_state_dict a)) (objs p))))"
      "\<not> has_stateful (offload_state_dict_to_cpu H
                 (resolved H (cells p (arg_state_dict a)) (objs p)))"
    and W: "arg_state_dict (task fut) < next_free W"
      "cells W (arg_state_dict (task fut)) =
         cells (snd (async_save H E a ex p)) (arg_state_dict (task fut))"
      "map_option (writers W) (arg_storage_writer a) = map_option (writers p) (arg_storage_writer a)"
  shows "fst (future_result H E [fut] [W]) = fst (save_of_staged H E [(a, p)])"
proof -
  let ?r = "Suc (next_free p)"
  let ?d = "offload_state_dict_to_cpu H (resolved H (cells p (arg_state_dict a)) (objs p))"
  note S = stage_state_without_stager[OF ns sd]
  note T = spec_stage_without_stager[OF ns sd]
  note A = async_save_without_stager[OF ns fut]
  have t: "task fut = a\<lparr>arg_state_dict := ?r\<rparr>" using A(1) S(1) by simp
  have cw: "cells W ?r = ?d" using W(2) t A(2) S(3) by simp
  have lw: "?r < next_free W" using W(1) t by simp
  let ?aw = "deref W (task fut)"
  have aw: "arg_state_dict ?aw = ?r" "arg_checkpoint_id ?aw = arg_checkpoint_id a"
    "arg_storage_writer ?aw = map_option (writers p) (arg_storage_writer a)"
    "arg_planner ?aw = arg_planner a"
    using t W(3) by (simp_all add: deref_def)
  let ?q = "snd (spec_stage H a p)"
  let ?as = "deref ?q (a\<lparr>arg_state_dict := fst (spec_stage H a p)\<rparr>)"
  have as: "arg_state_dict ?as = ?r" "arg_checkpoint_id ?as = arg_checkpoint_id a"
    "arg_storage_writer ?as = map_option (writers p) (arg_storage_writer a)"
    "arg_planner ?as = arg_planner a"
    using T by (simp_all add: deref_def)
  have l: "fst (future_result H E [fut] [W]) = fst (save H E [(?aw, W)])"
    by (simp add: future_result_def)
  have r: "fst (save_of_staged H E [(a, p)]) = fst (save H E [(?as, ?q)])"
    by (simp add: save_of_staged_def case_prod_beta)
  have 1: "arg_state_dict ?aw < next_free W" "distinct (map fst (cells W (arg_state_dict ?aw)))"
    "\<not> has_stateful (cells W (arg_state_dict ?aw))"
    unfolding aw using lw cw off by simp_all
  have 2: "arg_state_dict ?as < next_free ?q" "distinct (map fst (cells ?q (arg_state_dict ?as)))"
    "\<not> has_stateful (cells ?q (arg_state_dict ?as))"
    unfolding as using T off by simp_all
  show ?thesis
    unfolding l r save_single_plain[OF 1] save_single_plain[OF 2] aw as cw T(3) by (rule refl)
qed

text \<open>
  Claim C4 fails on the Stager branch. With a writer that implements \<^verbatim>\<open>AsyncStager\<close> the dict
  that is staged and submitted still holds the Stateful object (lines 264--265), and the
  task resolves it only when it runs. When the object has changed meanwhile, from 7 to 8
  after \<^verbatim>\<open>async_save\<close> had returned, the handle carries the metadata of the changed state,
  13, and not that of the synchronous save of the state resolved and staged at the call,
  12. With a writer that is no stager the object is resolved at the call and the handle
  carries 12.
\<close>

theorem async_handle_differs_from_save_of_staged:
  "fst (async_save toy (toy_env False) (toy_async_args (Some 1)) None (toy_proc toy_stateful_dict)) =
     Inr (Future ((toy_async_args (Some 1))\<lparr>arg_state_dict := 1\<rparr>)) \<and>
   fst (future_result toy (toy_env False) [Future ((toy_async_args (Some 1))\<lparr>arg_state_dict := 1\<rparr>)]
          [(snd (async_save toy (toy_env False) (toy_async_args (Some 1)) None
                   (toy_proc toy_stateful_dict)))\<lparr>objs := (\<lambda>a. 8)\<rparr>]) = Inr [(1, 13)] \<and>
   fst (save_of_staged toy (toy_env False) [(toy_async_args (Some 1), toy_proc toy_stateful_dict)]) =
     Inr [(1, 12)] \<and>
   fst (async_save toy (toy_env False) (toy_async_args (Some 0)) None (toy_proc toy_stateful_dict)) =
     Inr (Future ((toy_async_args (Some 0))\<lparr>arg_state_dict := 2\<rparr>)) \<and>
   fst (future_result toy (toy_env False) [Future ((toy_async_args (Some 0))\<lparr>arg_state_dict := 2\<rparr>)]
          [(snd (async_save toy (toy_env False) (toy_async_args (Some 0)) None
                   (toy_proc toy_stateful_dict)))\<lparr>objs := (\<lambda>a. 8)\<rparr>]) = Inr [(1, 12)]"
proof (intro conjI)
  let ?S = "snd (async_save toy (toy_env False) (toy_async_args (Some 1)) None (toy_proc toy_stateful_dict))"
  let ?O = "snd (async_save toy (toy_env False) (toy_async_args (Some 0)) None (toy_proc toy_stateful_dict))"
  show "fst (async_save toy (toy_env False) (toy_async_args (Some 1)) None (toy_proc toy_stateful_dict)) =
     Inr (Future ((toy_async_args (Some 1))\<lparr>arg_state_dict := 1\<rparr>))"
    by (rule toy_async_stager(1))
  have s: "1 < next_free (?S\<lparr>objs := (\<lambda>a. 8)\<rparr>)"
     "distinct (map fst (cells (?S\<lparr>objs := (\<lambda>a. 8)\<rparr>) 1))"
    unfolding toy_async_stager_later by simp_all
  show "fst (future_result toy (toy_env False) [Future ((toy_async_args (Some 1))\<lparr>arg_state_dict := 1\<rparr>)]
          [?S\<lparr>objs := (\<lambda>a. 8)\<rparr>]) = Inr [(1, 13)]"
    unfolding toy_future_result[OF s] toy_async_stager_later
    by (simp add: toy_value_def toy_def)
  have t: "fst (spec_stage toy (toy_async_args (Some 1)) (toy_proc toy_stateful_dict)) <
             next_free (snd (spec_stage toy (toy_async_args (Some 1)) (toy_proc toy_stateful_dict)))"
    "distinct (map fst (cells (snd (spec_stage toy (toy_async_args (Some 1)) (toy_proc toy_stateful_dict)))
             (fst (spec_stage toy (toy_async_args (Some 1)) (toy_proc toy_stateful_dict)))))"
    unfolding toy_spec_stage by simp_all
  show "fst (save_of_staged toy (toy_env False) [(toy_async_args (Some 1), toy_proc toy_stateful_dict)]) =
     Inr [(1, 12)]"
    unfolding toy_save_of_staged[OF t] toy_spec_stage
    by (simp add: toy_value_def)
  show "fst (async_save toy (toy_env False) (toy_async_args (Some 0)) None (toy_proc toy_stateful_dict)) =
     Inr (Future ((toy_async_args (Some 0))\<lparr>arg_state_dict := 2\<rparr>))"
    by (rule toy_async_offload(1))
  have o: "2 < next_free (?O\<lparr>objs := (\<lambda>a. 8)\<rparr>)"
     "distinct (map fst (cells (?O\<lparr>objs := (\<lambda>a. 8)\<rparr>) 2))"
    unfolding toy_async_offload_later by simp_all
  show "fst (future_result toy (toy_env False) [Future ((toy_async_args (Some 0))\<lparr>arg_state_dict := 2\<rparr>)]
          [?O\<lparr>objs := (\<lambda>a. 8)\<rparr>]) = Inr [(1, 12)]"
    unfolding toy_future_result[OF o] toy_async_offload_later
    by (simp add: toy_value_def)
qed

end
